theory Spec2Isabelle
  imports Complex_Main
begin

section \<open>Action-State Engine (dashboard/js/neuro-llama.js)\<close>

text \<open>
  JavaScript numbers are modelled as exact reals: every statement below is about the
  arithmetic the source writes down, without floating-point rounding. Clock readings
  (\<open>Date.now()\<close>) are integers, in milliseconds.
\<close>

subsection \<open>Data model\<close>

text \<open>The five keys of \<open>ACTION_VERBS\<close>, in the order the object literal lists them.\<close>

datatype actionName = Navigate | Select | Modify | Create | Delete

definition actionNames :: "actionName list" where
  "actionNames = [Navigate, Select, Modify, Create, Delete]"

text \<open>
  One entry of \<open>ACTION_VERBS\<close>. \<open>direction\<close> is \<open>None\<close> for \<open>null\<close> or an absent
  property; \<open>triggered\<close> is \<open>False\<close> for an absent property (the source only tests it for
  truthiness); \<open>lastTriggered\<close> is \<open>None\<close> until the first trigger.
\<close>

record actionState =
  confidence :: real
  direction :: "string option"
  active :: bool
  triggered :: bool
  lastTriggered :: "int option"

type_synonym verbs = "actionName \<Rightarrow> actionState"

definition initialAction :: actionState where
  "initialAction =
     \<lparr>confidence = 0, direction = None, active = False, triggered = False,
      lastTriggered = None\<rparr>"

definition ACTION_VERBS :: verbs where
  "ACTION_VERBS = (\<lambda>_. initialAction)"

text \<open>
  The part of the \<open>neuroLLaMA\<close> object the engine reads and writes, the accumulators, and
  a log of the calls of \<open>triggerAction\<close> (action and clock reading), newest last.
\<close>

record engine =
  neuroActive :: bool
  lastNeuralUpdate :: int
  neuralConnected :: bool
  verbs :: verbs
  fired :: "(actionName \<times> int) list"

definition threshold :: real where
  "threshold = 0.75"

definition initialEngine :: engine where
  "initialEngine =
     \<lparr>neuroActive = False, lastNeuralUpdate = 0, neuralConnected = False,
      verbs = ACTION_VERBS, fired = []\<rparr>"

text \<open>
  The \<open>detail\<close> of a \<open>processor:classification-updated\<close> event. A property that is absent
  is \<open>None\<close>; an event without \<open>detail\<close> is \<open>None\<close> as a whole.
\<close>

record classificationDetail =
  cls :: "string option"
  conf :: "real option"

type_synonym classificationEvent = "classificationDetail option"

text \<open>
  The \<open>detail\<close> of a \<open>processor:features-extracted\<close> event, as far as the engine
  reads it: \<open>features\<close> is \<open>None\<close> when the property is absent. A feature object has
  one of the two shapes the signal processor builds; its numbers only reach the drawing
  code and are left out.
\<close>

datatype featureBundle = TransformerFeatures | TraditionalFeatures

record featuresDetail =
  features :: "featureBundle option"

type_synonym featuresEvent = "featuresDetail option"

subsection \<open>updateActionStates\<close>

definition decayAll :: "real \<Rightarrow> verbs \<Rightarrow> verbs" where
  "decayAll k v = (\<lambda>a. (v a)\<lparr>confidence := confidence (v a) * k\<rparr>)"

definition raise :: "actionName \<Rightarrow> real \<Rightarrow> string \<Rightarrow> verbs \<Rightarrow> verbs" where
  "raise a c d v =
     v(a := (v a)\<lparr>confidence := max (confidence (v a)) c, direction := Some d\<rparr>)"

definition raiseConfidence :: "actionName \<Rightarrow> real \<Rightarrow> verbs \<Rightarrow> verbs" where
  "raiseConfidence a c v = v(a := (v a)\<lparr>confidence := max (confidence (v a)) c\<rparr>)"

text \<open>The \<open>switch (classification)\<close>; any other string matches no case.\<close>

definition route :: "string \<Rightarrow> real \<Rightarrow> verbs \<Rightarrow> verbs" where
  "route classification c v =
     (if classification = ''Left Hand'' then raise Navigate c ''backward'' v
      else if classification = ''Right Hand'' then raise Navigate c ''forward'' v
      else if classification = ''Feet'' then raise Modify c ''decrease'' v
      else if classification = ''Tongue'' then
        raise Modify (c * 0.8) ''increase'' (raiseConfidence Select c v)
      else if classification = ''Rest'' then decayAll 0.8 v
      else v)"

definition recomputeActive :: "verbs \<Rightarrow> verbs" where
  "recomputeActive v = (\<lambda>a. (v a)\<lparr>active := (confidence (v a) > 0.6)\<rparr>)"

text \<open>
  The source calls \<open>updateActionStates\<close> in two shapes: with no argument (\<open>None\<close>; the
  switch then matches nothing) and with a classification and a confidence.
\<close>

definition updateActionStates :: "(string \<times> real) option \<Rightarrow> verbs \<Rightarrow> verbs" where
  "updateActionStates arg v =
     recomputeActive
       (case arg of
          None \<Rightarrow> decayAll 0.9 v
        | Some (classification, c) \<Rightarrow> route classification c (decayAll 0.9 v))"

subsection \<open>considerTriggeringAction\<close>

text \<open>The scan for the action with the highest confidence at or above the threshold.\<close>

fun scanActions :: "verbs \<Rightarrow> actionName list \<Rightarrow> real \<times> actionName option
                     \<Rightarrow> real \<times> actionName option" where
  "scanActions v [] acc = acc"
| "scanActions v (n # ns) (highest, chosen) =
     scanActions v ns
       (if confidence (v n) > highest \<and> confidence (v n) \<ge> threshold
        then (confidence (v n), Some n) else (highest, chosen))"

definition actionToTrigger :: "verbs \<Rightarrow> actionName option" where
  "actionToTrigger v = snd (scanActions v actionNames (0, None))"

text \<open>\<open>actionState.lastTriggered || 0\<close>\<close>

definition lastOrZero :: "int option \<Rightarrow> int" where
  "lastOrZero t = (case t of None \<Rightarrow> 0 | Some x \<Rightarrow> x)"

definition considerTriggeringAction :: "int \<Rightarrow> engine \<Rightarrow> engine" where
  "considerTriggeringAction now s =
     (case actionToTrigger (verbs s) of
        None \<Rightarrow> s
      | Some a \<Rightarrow>
          if now - lastOrZero (lastTriggered (verbs s a)) > 2000
          then s\<lparr>verbs := (verbs s)(a := (verbs s a)\<lparr>triggered := True,
                                                     lastTriggered := Some now\<rparr>),
                 fired := fired s @ [(a, now)]\<rparr>
          else s)"

subsection \<open>Event handlers and the toggle\<close>

text \<open>\<open>event.detail.confidence || 0\<close>\<close>

definition confOrZero :: "real option \<Rightarrow> real" where
  "confOrZero c = (case c of None \<Rightarrow> 0 | Some x \<Rightarrow> x)"

definition touch :: "int \<Rightarrow> engine \<Rightarrow> engine" where
  "touch now s = s\<lparr>lastNeuralUpdate := now, neuralConnected := True\<rparr>"

definition handleNeuralClassification :: "int \<Rightarrow> classificationEvent \<Rightarrow> engine \<Rightarrow> engine" where
  "handleNeuralClassification now ev s =
     (if \<not> neuroActive s then s
      else
        let s1 = touch now s in
        case ev of
          None \<Rightarrow> s1
        | Some d \<Rightarrow>
            (case cls d of
               None \<Rightarrow> s1
             | Some classification \<Rightarrow>
                 if classification = [] then s1
                 else
                   let c = confOrZero (conf d);
                       s2 = s1\<lparr>verbs := updateActionStates (Some (classification, c))
                                           (verbs s1)\<rparr>
                   in if c \<ge> threshold then considerTriggeringAction now s2 else s2))"

definition handleNeuralFeatures :: "int \<Rightarrow> featuresEvent \<Rightarrow> engine \<Rightarrow> engine" where
  "handleNeuralFeatures now ev s =
     (if \<not> neuroActive s then s
      else
        let s1 = touch now s in
        case ev of
          None \<Rightarrow> s1
        | Some d \<Rightarrow>
            (case features d of
               None \<Rightarrow> s1
             | Some f \<Rightarrow> s1\<lparr>verbs := updateActionStates None (verbs s1)\<rparr>))"

definition resetAction :: "actionState \<Rightarrow> actionState" where
  "resetAction x = x\<lparr>confidence := 0, active := False, triggered := False\<rparr>"

definition toggleNeuralIntegration :: "engine \<Rightarrow> engine" where
  "toggleNeuralIntegration s =
     s\<lparr>neuroActive := \<not> neuroActive s, verbs := (\<lambda>a. resetAction (verbs s a))\<rparr>"

text \<open>
  The timeout armed by \<open>updateActionStatePanel\<close> for a triggered action: one second
  later it clears the flag.
\<close>

definition clearTriggered :: "actionName \<Rightarrow> engine \<Rightarrow> engine" where
  "clearTriggered a s = s\<lparr>verbs := (verbs s)(a := (verbs s a)\<lparr>triggered := False\<rparr>)\<rparr>"

text \<open>
  Everything that writes \<open>ACTION_VERBS\<close>: the two event handlers (with the clock reading
  of the delivery), a click on the toggle button, and the timeout of a triggered action.
\<close>

datatype input =
    Classification int classificationEvent
  | Features int featuresEvent
  | Toggle
  | Timeout actionName

fun step :: "input \<Rightarrow> engine \<Rightarrow> engine" where
  "step (Classification now ev) s = handleNeuralClassification now ev s"
| "step (Features now ev) s = handleNeuralFeatures now ev s"
| "step Toggle s = toggleNeuralIntegration s"
| "step (Timeout a) s = clearTriggered a s"

definition run :: "input list \<Rightarrow> engine \<Rightarrow> engine" where
  "run ins s = foldl (\<lambda>s i. step i s) s ins"

inductive reachable :: "engine \<Rightarrow> bool" where
  init: "reachable initialEngine"
| after: "reachable s \<Longrightarrow> reachable (step i s)"

section \<open>Integration glue: classification to movement (dashboard/js/dashboard.js)\<close>

text \<open>The payload of a \<open>decoder:movement-request\<close> event.\<close>

record movementRequest =
  reqDirection :: string
  reqConfidence :: real
  reqSource :: string

text \<open>The \<open>switch\<close> that maps a motor imagery class to a direction; \<open>None\<close> is \<open>null\<close>.\<close>

definition directionOf :: "string \<Rightarrow> string option" where
  "directionOf classification =
     (if classification = ''Left Hand'' then Some ''left''
      else if classification = ''Right Hand'' then Some ''right''
      else if classification = ''Feet'' then Some ''down''
      else if classification = ''Tongue'' then Some ''up''
      else None)"

text \<open>
  The listener the glue registers for \<open>processor:classification-updated\<close>; the result is
  the list of \<open>decoder:movement-request\<close> events it dispatches.
\<close>

definition classificationBridge :: "classificationEvent \<Rightarrow> movementRequest list" where
  "classificationBridge ev =
     (case ev of
        None \<Rightarrow> []
      | Some d \<Rightarrow>
          (case cls d of
             None \<Rightarrow> []
           | Some classification \<Rightarrow>
               if classification = [] then []
               else
                 let c = confOrZero (conf d) in
                 (case directionOf classification of
                    None \<Rightarrow> []
                  | Some dir \<Rightarrow>
                      if dir \<noteq> [] \<and> c > 0.65
                      then [\<lparr>reqDirection = dir, reqConfidence = c,
                             reqSource = ''neural-processor''\<rparr>]
                      else [])))"

text \<open>
  Which entry points exist when the glue runs (\<open>typeof f === 'function'\<close>), and how many
  copies of the bridge listener the document holds. Every call of
  \<open>initializeComponentIntegration\<close> with both the decoder and NeuroLLaMA present adds one.
\<close>

record modules =
  hasNeuralSignalProcessor :: bool
  hasNeuroLLaMA :: bool
  hasDecoderVisualization :: bool
  hasBCIStatus :: bool

definition initializeComponentIntegration :: "modules \<Rightarrow> nat \<Rightarrow> nat" where
  "initializeComponentIntegration m bridges =
     (if hasDecoderVisualization m \<and> hasNeuroLLaMA m then Suc bridges else bridges)"

text \<open>Delivery of one classification event to the registered bridge listeners, in order.\<close>

definition dispatchClassification :: "nat \<Rightarrow> classificationEvent \<Rightarrow> movementRequest list" where
  "dispatchClassification bridges ev = concat (replicate bridges (classificationBridge ev))"

section \<open>Movement decoder (decoder visualization and dashboard/js/dashboard.js)\<close>

subsection \<open>Decoder data\<close>

record metrics =
  mse :: real
  r2 :: real
  correlation :: real
  decodeTime :: real
  bitrate :: real

type_synonym point = "real \<times> real"

text \<open>
  A velocity component is \<open>None\<close> when the source's division does not give a finite
  number (a zero or undefined time difference).
\<close>

type_synonym velocity = "real option \<times> real option"

record decoderData =
  actual :: "point list"
  predicted :: "point list"
  timestamps :: "real list"
  velActual :: "velocity list"
  velPredicted :: "velocity list"
  accuracy :: real
  decoderMetrics :: metrics
  trajectoryType :: string

definition currentDecoderData :: decoderData where
  "currentDecoderData =
     \<lparr>actual = [], predicted = [], timestamps = [], velActual = [], velPredicted = [],
      accuracy = 0.85,
      decoderMetrics = \<lparr>mse = 0.025, r2 = 0.78, correlation = 0.89, decodeTime = 5.2,
                        bitrate = 128.4\<rparr>,
      trajectoryType = ''circular''\<rparr>"

subsection \<open>addDecodedPosition\<close>

text \<open>\<open>xs[xs.length - 2]\<close>, \<open>None\<close> when that is \<open>undefined\<close>.\<close>

definition secondLast :: "'a list \<Rightarrow> 'a option" where
  "secondLast xs = (if 2 \<le> length xs then Some (xs ! (length xs - 2)) else None)"

text \<open>Division by a number that may itself be undefined; \<open>None\<close> is a non-finite result.\<close>

definition jsDiv :: "real \<Rightarrow> real option \<Rightarrow> real option" where
  "jsDiv a b = (case b of None \<Rightarrow> None | Some d \<Rightarrow> if d = 0 then None else Some (a / d))"

definition finite2 :: "point \<Rightarrow> velocity" where
  "finite2 p = (Some (fst p), Some (snd p))"

definition velocityBetween :: "point \<Rightarrow> point \<Rightarrow> real option \<Rightarrow> velocity" where
  "velocityBetween p prev deltaTime =
     (jsDiv (fst p - fst prev) deltaTime, jsDiv (snd p - snd prev) deltaTime)"

text \<open>
  The velocities pushed when the caller gives none. Reading a coordinate of an undefined
  previous predicted point throws; that is the result \<open>None\<close>.
\<close>

definition derivedVelocities :: "point \<Rightarrow> point \<Rightarrow> real \<Rightarrow> decoderData
                                   \<Rightarrow> (velocity \<times> velocity) option" where
  "derivedVelocities a p t d =
     (if length (actual d) > 1 then
        (case secondLast (predicted d) of
           None \<Rightarrow> None
         | Some prevPredicted \<Rightarrow>
             let prevActual = actual d ! (length (actual d) - 2);
                 deltaTime = map_option (\<lambda>prevTime. (t - prevTime) / 1000)
                               (secondLast (timestamps d))
             in Some (velocityBetween a prevActual deltaTime,
                      velocityBetween p prevPredicted deltaTime))
      else Some ((Some 0, Some 0), (Some 0, Some 0)))"

definition trimHistory :: "decoderData \<Rightarrow> decoderData" where
  "trimHistory d =
     (if length (actual d) > 100
      then d\<lparr>actual := tl (actual d), predicted := tl (predicted d),
             timestamps := tl (timestamps d), velActual := tl (velActual d),
             velPredicted := tl (velPredicted d)\<rparr>
      else d)"

text \<open>
  One call \<open>addDecodedPosition(actual, predicted, timestamp, actualVelocity,
  predictedVelocity)\<close>; the two velocities are optional. The result is \<open>None\<close> when the
  call throws.
\<close>

record decodedPosition =
  posActual :: point
  posPredicted :: point
  posTimestamp :: real
  posActualVelocity :: "point option"
  posPredictedVelocity :: "point option"

text \<open>The first three pushes of the call.\<close>

definition pushPosition :: "decodedPosition \<Rightarrow> decoderData \<Rightarrow> decoderData" where
  "pushPosition c d =
     d\<lparr>actual := actual d @ [posActual c],
       predicted := predicted d @ [posPredicted c],
       timestamps := timestamps d @ [posTimestamp c]\<rparr>"

text \<open>
  The pair of velocities the call pushes next, given the data after those three pushes:
  the velocities of the caller when both are there, the derived ones otherwise.
\<close>

definition pushedVelocities :: "decodedPosition \<Rightarrow> decoderData
                                  \<Rightarrow> (velocity \<times> velocity) option" where
  "pushedVelocities c d1 =
     (case (posActualVelocity c, posPredictedVelocity c) of
        (Some va, Some vp) \<Rightarrow> Some (finite2 va, finite2 vp)
      | _ \<Rightarrow> derivedVelocities (posActual c) (posPredicted c) (posTimestamp c) d1)"

definition addDecodedPosition :: "decodedPosition \<Rightarrow> decoderData \<Rightarrow> decoderData option" where
  "addDecodedPosition c d =
     (let d1 = pushPosition c d in
      case pushedVelocities c d1 of
        None \<Rightarrow> None
      | Some (va, vp) \<Rightarrow>
          Some (trimHistory (d1\<lparr>velActual := velActual d1 @ [va],
                                  velPredicted := velPredicted d1 @ [vp]\<rparr>)))"

fun addDecodedPositions :: "decodedPosition list \<Rightarrow> decoderData \<Rightarrow> decoderData option" where
  "addDecodedPositions [] d = Some d"
| "addDecodedPositions (c # cs) d =
     (case addDecodedPosition c d of None \<Rightarrow> None | Some d' \<Rightarrow> addDecodedPositions cs d')"

text \<open>The five arrays are filled and trimmed together.\<close>

definition aligned :: "decoderData \<Rightarrow> bool" where
  "aligned d \<longleftrightarrow>
     length (predicted d) = length (actual d) \<and> length (timestamps d) = length (actual d) \<and>
     length (velActual d) = length (actual d) \<and> length (velPredicted d) = length (actual d)"

subsection \<open>updateDecoderModelMetrics\<close>

text \<open>The local variables \<open>accuracy\<close>, \<open>noise\<close> and \<open>metrics\<close> of the function.\<close>

record decoderParams =
  pAccuracy :: real
  pNoise :: real
  pMetrics :: metrics

definition baseParams :: decoderParams where
  "baseParams =
     \<lparr>pAccuracy = 0.80, pNoise = 0.15,
      pMetrics = \<lparr>mse = 0.035, r2 = 0.75, correlation = 0.85, decodeTime = 5.0,
                  bitrate = 120\<rparr>\<rparr>"

definition scaleParams :: "real \<Rightarrow> real \<Rightarrow> real \<Rightarrow> real \<Rightarrow> real \<Rightarrow> real \<Rightarrow> real
                            \<Rightarrow> decoderParams \<Rightarrow> decoderParams" where
  "scaleParams ka kn kmse kr2 kcorr ktime kbit p =
     \<lparr>pAccuracy = pAccuracy p * ka, pNoise = pNoise p * kn,
      pMetrics = \<lparr>mse = mse (pMetrics p) * kmse, r2 = r2 (pMetrics p) * kr2,
                  correlation = correlation (pMetrics p) * kcorr,
                  decodeTime = decodeTime (pMetrics p) * ktime,
                  bitrate = bitrate (pMetrics p) * kbit\<rparr>\<rparr>"

definition adjustForModel :: "string \<Rightarrow> decoderParams \<Rightarrow> decoderParams" where
  "adjustForModel modelId p =
     (if modelId = ''model1'' then scaleParams 1.05 0.85 0.8 1.05 1.05 1.1 1.05 p
      else if modelId = ''model2'' then scaleParams 0.9 1.3 1.5 0.9 0.95 0.85 0.85 p
      else if modelId = ''model3'' then scaleParams 1.12 0.6 0.65 1.12 1.1 1.2 1.15 p
      else p)"

definition adjustForTrajectory :: "string \<Rightarrow> decoderParams \<Rightarrow> decoderParams" where
  "adjustForTrajectory ttype p =
     (if ttype = ''circular'' then p
      else if ttype = ''figure8'' then scaleParams 0.92 1.2 1.3 0.92 0.95 1 0.95 p
      else if ttype = ''reaching'' then scaleParams 1.08 0.8 0.7 1.05 1.05 1 1.1 p
      else p)"

definition clampParams :: "decoderParams \<Rightarrow> decoderParams" where
  "clampParams p =
     p\<lparr>pAccuracy := min 0.98 (max 0.5 (pAccuracy p)),
       pMetrics := \<lparr>mse = max 0.01 (mse (pMetrics p)),
                    r2 = min 0.98 (max 0.4 (r2 (pMetrics p))),
                    correlation = min 0.99 (max 0.5 (correlation (pMetrics p))),
                    decodeTime = max 2.0 (decodeTime (pMetrics p)),
                    bitrate = max 50 (bitrate (pMetrics p))\<rparr>\<rparr>"

definition computeDecoderMetrics :: "string \<Rightarrow> string \<Rightarrow> decoderParams" where
  "computeDecoderMetrics modelId ttype =
     clampParams (adjustForTrajectory ttype (adjustForModel modelId baseParams))"

text \<open>
  \<open>decoderVisualization.updateDecoderData\<close> for the object the metrics pass hands over:
  the merge replaces the three properties. The comparison of the trajectory type that
  would regenerate the demo data is made after the merge, so it never holds.
\<close>

definition updateDecoderData :: "decoderParams \<Rightarrow> string \<Rightarrow> decoderData \<Rightarrow> decoderData" where
  "updateDecoderData p ttype d =
     d\<lparr>accuracy := pAccuracy p, decoderMetrics := pMetrics p, trajectoryType := ttype\<rparr>"

text \<open>
  The first argument says whether \<open>window.decoderVisualization.updateDecoderData\<close>
  exists; without it the function does nothing.
\<close>

definition updateDecoderModelMetrics :: "bool \<Rightarrow> string \<Rightarrow> string \<Rightarrow> decoderData
                                           \<Rightarrow> decoderData" where
  "updateDecoderModelMetrics present modelId ttype d =
     (if present then updateDecoderData (computeDecoderMetrics modelId ttype) ttype d else d)"

section \<open>Signal classifier: attention weights (dashboard/js/neural-signal-processor.js)\<close>

text \<open>
  \<open>Math.random()\<close> is a stream of draws, read in the order of the calls: draw \<open>k\<close> is
  \<open>rnd k\<close>. A weight is \<open>None\<close> when the division by the row sum is not finite.
\<close>

definition sequenceLength :: nat where
  "sequenceLength = 16"

definition randomRow :: "(nat \<Rightarrow> real) \<Rightarrow> nat \<Rightarrow> real list" where
  "randomRow rnd k = map (\<lambda>j. rnd (k + j)) [0..<sequenceLength]"

definition normalizeRow :: "real list \<Rightarrow> real option list" where
  "normalizeRow row = (let sum = foldl (+) 0 row in map (\<lambda>v. jsDiv v (Some sum)) row)"

text \<open>One head: the sixteen rows are drawn first, then each is normalized.\<close>

definition randomHead :: "(nat \<Rightarrow> real) \<Rightarrow> nat \<Rightarrow> real option list list" where
  "randomHead rnd k =
     map normalizeRow
       (map (\<lambda>i. randomRow rnd (k + i * sequenceLength)) [0..<sequenceLength])"

definition generateRandomAttentionMatrix :: "(nat \<Rightarrow> real) \<Rightarrow> nat
                                               \<Rightarrow> real option list list list" where
  "generateRandomAttentionMatrix rnd numHeads =
     map (\<lambda>h. randomHead rnd (h * sequenceLength * sequenceLength)) [0..<numHeads]"









section \<open>Device-status monitor: impedance check (dashboard/js/bci-status.js)\<close>

datatype electrodeStatus = Good | Moderate | Poor

record electrode =
  name :: string
  impedance :: real
  signal :: real
  status :: electrodeStatus

text \<open>The body of the \<open>forEach\<close>: \<open>u\<close> and \<open>w\<close> are its two draws of \<open>Math.random()\<close>.\<close>

definition recheckElectrode :: "real \<Rightarrow> real \<Rightarrow> electrode \<Rightarrow> electrode" where
  "recheckElectrode u w e =
     (let z = max 5 (min 40 (impedance e + (u - 0.5) * 10)) in
      if z < 10 then e\<lparr>impedance := z, signal := 95 + w * 5, status := Good\<rparr>
      else if z < 15 then e\<lparr>impedance := z, signal := 90 + w * 5, status := Good\<rparr>
      else if z < 20 then e\<lparr>impedance := z, signal := 80 + w * 10, status := Moderate\<rparr>
      else e\<lparr>impedance := z, signal := 70 + w * 10, status := Poor\<rparr>)"

fun recheckAll :: "(nat \<Rightarrow> real) \<Rightarrow> nat \<Rightarrow> electrode list \<Rightarrow> electrode list" where
  "recheckAll rnd k [] = []"
| "recheckAll rnd k (e # es) =
     recheckElectrode (rnd k) (rnd (Suc k)) e # recheckAll rnd (k + 2) es"

text \<open>
  A running check: the \<open>progress\<close> variable of the closure, whether the interval is still
  armed, and the electrodes of \<open>bciStatus\<close>.
\<close>

record impedanceCheck =
  progress :: nat
  armed :: bool
  electrodes :: "electrode list"

definition startImpedanceCheck :: "electrode list \<Rightarrow> impedanceCheck" where
  "startImpedanceCheck es = \<lparr>progress = 0, armed = True, electrodes = es\<rparr>"

text \<open>The interval callback, every 100 ms while armed.\<close>

definition progressTick :: "(nat \<Rightarrow> real) \<Rightarrow> impedanceCheck \<Rightarrow> impedanceCheck" where
  "progressTick rnd s =
     (let p = progress s + 5 in
      if p \<ge> 100
      then \<lparr>progress = p, armed = False, electrodes = recheckAll rnd 0 (electrodes s)\<rparr>
      else s\<lparr>progress := p\<rparr>)"

function runTicks :: "(nat \<Rightarrow> real) \<Rightarrow> impedanceCheck \<Rightarrow> impedanceCheck" where
  "runTicks rnd s = (if armed s then runTicks rnd (progressTick rnd s) else s)"
  by pat_completeness auto
termination
  by (relation "measure (\<lambda>(rnd, s). if armed s then Suc (100 - progress s) else 0)")
     (auto simp: progressTick_def Let_def)

declare runTicks.simps [simp del]

text \<open>\<open>runImpedanceCheck()\<close> followed to its completion.\<close>

definition runImpedanceCheck :: "(nat \<Rightarrow> real) \<Rightarrow> electrode list \<Rightarrow> impedanceCheck" where
  "runImpedanceCheck rnd es = runTicks rnd (startImpedanceCheck es)"

definition bciElectrodes :: "electrode list" where
  "bciElectrodes =
     [\<lparr>name = ''Fp1'', impedance = 12.4, signal = 95, status = Good\<rparr>,
      \<lparr>name = ''Fp2'', impedance = 8.7, signal = 98, status = Good\<rparr>,
      \<lparr>name = ''F3'', impedance = 15.2, signal = 92, status = Good\<rparr>,
      \<lparr>name = ''F4'', impedance = 10.1, signal = 97, status = Good\<rparr>,
      \<lparr>name = ''C3'', impedance = 7.8, signal = 99, status = Good\<rparr>,
      \<lparr>name = ''C4'', impedance = 11.3, signal = 96, status = Good\<rparr>,
      \<lparr>name = ''P3'', impedance = 14.6, signal = 91, status = Good\<rparr>,
      \<lparr>name = ''P4'', impedance = 9.2, signal = 94, status = Good\<rparr>,
      \<lparr>name = ''O1'', impedance = 18.5, signal = 85, status = Poor\<rparr>,
      \<lparr>name = ''O2'', impedance = 22.7, signal = 78, status = Poor\<rparr>,
      \<lparr>name = ''T3'', impedance = 13.4, signal = 93, status = Good\<rparr>,
      \<lparr>name = ''T4'', impedance = 16.8, signal = 89, status = Moderate\<rparr>,
      \<lparr>name = ''T5'', impedance = 19.3, signal = 82, status = Poor\<rparr>,
      \<lparr>name = ''T6'', impedance = 17.6, signal = 87, status = Moderate\<rparr>,
      \<lparr>name = ''Fz'', impedance = 6.5, signal = 100, status = Good\<rparr>,
      \<lparr>name = ''Cz'', impedance = 5.9, signal = 100, status = Good\<rparr>,
      \<lparr>name = ''Pz'', impedance = 9.8, signal = 97, status = Good\<rparr>]"

section \<open>Properties of the Action-State Engine\<close>

subsection \<open>What one run of the accumulator update does\<close>

lemma active_updateActionStates:
  "active (updateActionStates arg v a) = (confidence (updateActionStates arg v a) > 0.6)"
  by (simp add: updateActionStates_def recomputeActive_def)



lemma confidence_update_Rest:
  "confidence (updateActionStates (Some (''Rest'', c)) v a) = confidence (v a) * 0.9 * 0.8"
  by (simp add: updateActionStates_def recomputeActive_def decayAll_def route_def)

lemma confidence_update_RightHand:
  "confidence (updateActionStates (Some (''Right Hand'', c)) v a) =
     (if a = Navigate then max (confidence (v a) * 0.9) c else confidence (v a) * 0.9)"
  by (simp add: updateActionStates_def recomputeActive_def decayAll_def route_def raise_def)

lemma direction_update_RightHand:
  "direction (updateActionStates (Some (''Right Hand'', c)) v Navigate) = Some ''forward''"
  by (simp add: updateActionStates_def recomputeActive_def decayAll_def route_def raise_def)

lemma lastTriggered_updateActionStates:
  "lastTriggered (updateActionStates arg v a) = lastTriggered (v a)"
  by (auto simp: updateActionStates_def recomputeActive_def decayAll_def route_def
        raise_def raiseConfidence_def split: option.splits)

text \<open>\<open>considerTriggeringAction\<close> writes only \<open>triggered\<close> and \<open>lastTriggered\<close>.\<close>

lemma confidence_considerTriggeringAction:
  "confidence (verbs (considerTriggeringAction now s) a) = confidence (verbs s a)"
  by (simp add: considerTriggeringAction_def split: option.splits)

lemma active_considerTriggeringAction:
  "active (verbs (considerTriggeringAction now s) a) = active (verbs s a)"
  by (simp add: considerTriggeringAction_def split: option.splits)

lemma direction_considerTriggeringAction:
  "direction (verbs (considerTriggeringAction now s) a) = direction (verbs s a)"
  by (simp add: considerTriggeringAction_def split: option.splits)

text \<open>
  An event with a non-empty class, delivered while the integration is active, leaves the
  accumulators as \<open>updateActionStates\<close> computes them.
\<close>

lemma handle_classification_verbs:
  assumes "neuroActive s" and "cls d = Some c" and "c \<noteq> []"
  shows "confidence (verbs (handleNeuralClassification now (Some d) s) a) =
           confidence (updateActionStates (Some (c, confOrZero (conf d))) (verbs s) a)"
    and "active (verbs (handleNeuralClassification now (Some d) s) a) =
           active (updateActionStates (Some (c, confOrZero (conf d))) (verbs s) a)"
    and "direction (verbs (handleNeuralClassification now (Some d) s) a) =
           direction (updateActionStates (Some (c, confOrZero (conf d))) (verbs s) a)"
  using assms
  by (simp_all add: handleNeuralClassification_def Let_def touch_def
        confidence_considerTriggeringAction active_considerTriggeringAction
        direction_considerTriggeringAction)

lemma run_reachable: "reachable s \<Longrightarrow> reachable (run ins s)"
  unfolding run_def
  by (induction ins arbitrary: s) (auto intro: reachable.after)

text \<open>The equations that evaluate the engine on a concrete run.\<close>

lemmas engine_eval =
  run_def handleNeuralClassification_def handleNeuralFeatures_def
  toggleNeuralIntegration_def clearTriggered_def initialEngine_def ACTION_VERBS_def
  initialAction_def updateActionStates_def route_def decayAll_def raise_def
  raiseConfidence_def recomputeActive_def considerTriggeringAction_def actionToTrigger_def
  actionNames_def threshold_def lastOrZero_def confOrZero_def touch_def resetAction_def
  Let_def

subsection \<open>Invariants of the reachable states\<close>

lemma step_derived:
  assumes "\<And>a. active (verbs s a) = (0.6 < confidence (verbs s a))"
  shows "active (verbs (step i s) a) = (0.6 < confidence (verbs (step i s) a))"
proof (cases i)
  case (Classification now ev)
  show ?thesis
    unfolding Classification step.simps handleNeuralClassification_def Let_def
    by (simp add: assms touch_def active_updateActionStates
          confidence_considerTriggeringAction active_considerTriggeringAction
          split: option.splits)
next
  case (Features now ev)
  show ?thesis
    unfolding Features step.simps handleNeuralFeatures_def Let_def
    by (simp add: assms touch_def active_updateActionStates split: option.splits)
next
  case Toggle
  show ?thesis
    by (simp add: Toggle toggleNeuralIntegration_def resetAction_def)
next
  case (Timeout b)
  show ?thesis
    by (simp add: Timeout clearTriggered_def assms)
qed

lemma reachable_derived:
  "reachable s \<Longrightarrow> active (verbs s a) = (0.6 < confidence (verbs s a))"
proof (induction arbitrary: a rule: reachable.induct)
  case init
  show ?case by (simp add: initialEngine_def ACTION_VERBS_def initialAction_def)
next
  case (after s i)
  show ?case by (rule step_derived) (rule after.IH)
qed

text \<open>
  No event makes a confidence negative, whatever confidence the event carries: the
  decays keep the sign and \<open>max\<close> only raises.
\<close>

lemma reachable_confidence_nonneg: "reachable s \<Longrightarrow> 0 \<le> confidence (verbs s a)"
proof (induction arbitrary: a rule: reachable.induct)
  case init
  show ?case by (simp add: initialEngine_def ACTION_VERBS_def initialAction_def)
next
  case (after s i)
  have nn: "\<And>b. 0 \<le> confidence (verbs s b)" by (rule after.IH)
  have upd: "0 \<le> confidence (updateActionStates arg (verbs s) a)" for arg
    using nn [of a] nn [of Navigate] nn [of Select] nn [of Modify]
    by (auto simp: updateActionStates_def recomputeActive_def decayAll_def route_def
          raise_def raiseConfidence_def max_def split: option.splits)
  show ?case
  proof (cases i)
    case (Classification now ev)
    show ?thesis
      unfolding Classification step.simps handleNeuralClassification_def Let_def
      using nn [of a] upd
      by (simp add: touch_def confidence_considerTriggeringAction split: option.splits)
  next
    case (Features now ev)
    show ?thesis
      unfolding Features step.simps handleNeuralFeatures_def Let_def
      using nn [of a] upd by (simp add: touch_def split: option.splits)
  next
    case Toggle
    show ?thesis by (simp add: Toggle toggleNeuralIntegration_def resetAction_def)
  next
    case (Timeout b)
    show ?thesis using nn [of a] nn [of b] by (simp add: Timeout clearTriggered_def)
  qed
qed

subsection \<open>Rest events\<close>

text \<open>
  Claim C1. While neural integration is active, a classification event with class Rest
  leaves every accumulator's confidence at most its confidence before the event times 0.9
  times 0.8 (the decay of all accumulators, then the further decay of the Rest case; the
  two factors give equality), and it raises no confidence: the confidence after is at
  most the confidence before, for every accumulator whose confidence is not negative, as
  it is in every reachable state (\<open>reachable_confidence_nonneg\<close>). The confidence the
  event carries plays no part.
\<close>

theorem rest_event_double_decay:
  assumes "neuroActive s" and "cls d = Some ''Rest''"
  shows "confidence (verbs (handleNeuralClassification now (Some d) s) a)
           \<le> confidence (verbs s a) * 0.9 * 0.8 \<and>
         (0 \<le> confidence (verbs s a) \<longrightarrow>
            confidence (verbs (handleNeuralClassification now (Some d) s) a)
              \<le> confidence (verbs s a))"
proof -
  have "confidence (verbs (handleNeuralClassification now (Some d) s) a) =
          confidence (verbs s a) * 0.9 * 0.8"
    using assms by (simp add: handle_classification_verbs(1) confidence_update_Rest)
  then show ?thesis by auto
qed

text \<open>
  Witness for C1: after a Tongue event of confidence 1 the select accumulator stands at 1;
  a Rest event then brings it down to at most 0.72.
\<close>

theorem rest_event_double_decay_witness:
  "neuroActive (run [Toggle,
      Classification 1000000 (Some \<lparr>cls = Some ''Tongue'', conf = Some 1\<rparr>)] initialEngine) \<and>
   cls \<lparr>cls = Some ''Rest'', conf = Some 0.8\<rparr> = Some ''Rest'' \<and>
   0 \<le> confidence (verbs (run [Toggle,
      Classification 1000000 (Some \<lparr>cls = Some ''Tongue'', conf = Some 1\<rparr>)] initialEngine)
      Select) \<and>
   confidence (verbs (handleNeuralClassification 1000500
      (Some \<lparr>cls = Some ''Rest'', conf = Some 0.8\<rparr>)
      (run [Toggle,
        Classification 1000000 (Some \<lparr>cls = Some ''Tongue'', conf = Some 1\<rparr>)] initialEngine))
      Select) \<le> 0.72 \<and>
   confidence (verbs (handleNeuralClassification 1000500
      (Some \<lparr>cls = Some ''Rest'', conf = Some 0.8\<rparr>)
      (run [Toggle,
        Classification 1000000 (Some \<lparr>cls = Some ''Tongue'', conf = Some 1\<rparr>)] initialEngine))
      Select) \<le> 1"
proof -
  let ?s = "run [Toggle,
      Classification 1000000 (Some \<lparr>cls = Some ''Tongue'', conf = Some 1\<rparr>)] initialEngine"
  let ?d = "\<lparr>cls = Some ''Rest'', conf = Some (0.8::real)\<rparr>"
  have a: "neuroActive ?s" by (simp add: engine_eval)
  have c: "cls ?d = Some ''Rest''" by simp
  have v: "confidence (verbs ?s Select) = 1" by (simp add: engine_eval)
  show ?thesis
    using rest_event_double_decay [OF a c, of 1000500 Select] a v by simp
qed

subsection \<open>The active flag\<close>

text \<open>
  Claim C2. After every run of the accumulator update, from any accumulators and for
  either shape of the call, and after the toggle has reset the accumulators, each
  accumulator has \<open>active\<close> exactly when its confidence is above 0.6; and this holds in
  every state the engine can reach by classification events, feature events, toggles and
  the timeouts that clear \<open>triggered\<close>.
\<close>

theorem active_is_derived:
  "(active (updateActionStates arg v a) \<longleftrightarrow> 0.6 < confidence (updateActionStates arg v a)) \<and>
   (active (verbs (toggleNeuralIntegration s0) a)
      \<longleftrightarrow> 0.6 < confidence (verbs (toggleNeuralIntegration s0) a)) \<and>
   (reachable s \<longrightarrow> (active (verbs s a) \<longleftrightarrow> 0.6 < confidence (verbs s a)))"
  by (simp add: active_updateActionStates reachable_derived toggleNeuralIntegration_def
        resetAction_def)

text \<open>
  Witness for C2: the state after switching the integration on and one Right Hand event
  of confidence 0.9 is reachable, and its navigate accumulator is active with a
  confidence above 0.6.
\<close>

theorem active_is_derived_witness:
  "reachable (run [Toggle,
      Classification 1000000 (Some \<lparr>cls = Some ''Right Hand'', conf = Some 0.9\<rparr>)]
      initialEngine) \<and>
   active (verbs (run [Toggle,
      Classification 1000000 (Some \<lparr>cls = Some ''Right Hand'', conf = Some 0.9\<rparr>)]
      initialEngine) Navigate) \<and>
   0.6 < confidence (verbs (run [Toggle,
      Classification 1000000 (Some \<lparr>cls = Some ''Right Hand'', conf = Some 0.9\<rparr>)]
      initialEngine) Navigate)"
proof -
  let ?s = "run [Toggle,
      Classification 1000000 (Some \<lparr>cls = Some ''Right Hand'', conf = Some 0.9\<rparr>)]
      initialEngine"
  have r: "reachable ?s" by (rule run_reachable) (rule reachable.init)
  have c: "0.6 < confidence (verbs ?s Navigate)" by (simp add: engine_eval)
  show ?thesis
    using active_is_derived [of None ACTION_VERBS Navigate initialEngine ?s] r c by blast
qed

subsection \<open>Trigger debounce\<close>

lemma trigger_marks:
  assumes "actionToTrigger (verbs s) = Some a"
    and "now - lastOrZero (lastTriggered (verbs s a)) > 2000"
  shows "fired (considerTriggeringAction now s) = fired s @ [(a, now)]"
    and "triggered (verbs (considerTriggeringAction now s) a)"
    and "lastTriggered (verbs (considerTriggeringAction now s) a) = Some now"
  using assms by (simp_all add: considerTriggeringAction_def)

lemma trigger_dropped:
  assumes "actionToTrigger (verbs s) = Some a"
    and "now - lastOrZero (lastTriggered (verbs s a)) \<le> 2000"
  shows "considerTriggeringAction now s = s"
  using assms by (simp add: considerTriggeringAction_def)

text \<open>
  Once the chosen action has been triggered at time \<open>t\<close>, the next qualifying event
  triggers it exactly when strictly more than 2000 ms have passed.
\<close>

lemma debounce:
  assumes "actionToTrigger (verbs s) = Some a" and "lastTriggered (verbs s a) = Some t"
  shows "fired (considerTriggeringAction now s) =
           (if now - t > 2000 then fired s @ [(a, now)] else fired s)"
  using assms by (simp add: considerTriggeringAction_def lastOrZero_def)

lemma debounce_1999ms_single_trigger:
  "fired (run [Toggle,
     Classification 1000000 (Some \<lparr>cls = Some ''Right Hand'', conf = Some 0.9\<rparr>),
     Classification 1001999 (Some \<lparr>cls = Some ''Right Hand'', conf = Some 0.9\<rparr>)]
     initialEngine)
   = [(Navigate, 1000000)]"
  by (simp add: engine_eval)

lemma debounce_2001ms_two_triggers:
  "fired (run [Toggle,
     Classification 1000000 (Some \<lparr>cls = Some ''Right Hand'', conf = Some 0.9\<rparr>),
     Classification 1002001 (Some \<lparr>cls = Some ''Right Hand'', conf = Some 0.9\<rparr>)]
     initialEngine)
   = [(Navigate, 1000000), (Navigate, 1002001)]"
  by (simp add: engine_eval)

text \<open>
  Claim C3, at the boundary. Two Right Hand events of confidence 0.9, both qualifying the
  navigate accumulator, are processed exactly 2000 ms apart. The claim (and the comment in
  \<open>considerTriggeringAction\<close>, "at least 2 seconds since last trigger") lets the second
  one trigger; the test \<open>now - lastTriggered > 2000\<close> drops it, and one trigger fires.
\<close>

theorem debounce_exactly_2000ms_single_trigger:
  "fired (run [Toggle,
     Classification 1000000 (Some \<lparr>cls = Some ''Right Hand'', conf = Some 0.9\<rparr>),
     Classification 1002000 (Some \<lparr>cls = Some ''Right Hand'', conf = Some 0.9\<rparr>)]
     initialEngine)
   = [(Navigate, 1000000)]"
  by (simp add: engine_eval)

subsection \<open>The Right Hand scenario\<close>

text \<open>
  Claim C4. While neural integration is active, and from any accumulators, a
  classification event with class "Right Hand" and confidence 0.9 leaves the navigate
  accumulator with the larger of its decayed confidence (times 0.9) and 0.9, hence with a
  confidence of at least 0.9, with direction "forward", and active.
\<close>

theorem right_hand_scenario:
  assumes "neuroActive s" and "cls d = Some ''Right Hand''" and "conf d = Some 0.9"
  shows "confidence (verbs (handleNeuralClassification now (Some d) s) Navigate)
           = max (confidence (verbs s Navigate) * 0.9) 0.9 \<and>
         confidence (verbs (handleNeuralClassification now (Some d) s) Navigate) \<ge> 0.9 \<and>
         direction (verbs (handleNeuralClassification now (Some d) s) Navigate)
           = Some ''forward'' \<and>
         active (verbs (handleNeuralClassification now (Some d) s) Navigate)"
  using assms
  by (simp add: handle_classification_verbs confidence_update_RightHand
        direction_update_RightHand active_updateActionStates confOrZero_def)

text \<open>Witness for C4: the event delivered right after the integration is switched on.\<close>

theorem right_hand_scenario_witness:
  "neuroActive (toggleNeuralIntegration initialEngine) \<and>
   confidence (verbs (handleNeuralClassification 1000000
      (Some \<lparr>cls = Some ''Right Hand'', conf = Some 0.9\<rparr>)
      (toggleNeuralIntegration initialEngine)) Navigate) = 0.9 \<and>
   direction (verbs (handleNeuralClassification 1000000
      (Some \<lparr>cls = Some ''Right Hand'', conf = Some 0.9\<rparr>)
      (toggleNeuralIntegration initialEngine)) Navigate) = Some ''forward'' \<and>
   active (verbs (handleNeuralClassification 1000000
      (Some \<lparr>cls = Some ''Right Hand'', conf = Some 0.9\<rparr>)
      (toggleNeuralIntegration initialEngine)) Navigate)"
proof -
  let ?s = "toggleNeuralIntegration initialEngine"
  let ?d = "\<lparr>cls = Some ''Right Hand'', conf = Some (0.9::real)\<rparr>"
  have a: "neuroActive ?s" by (simp add: engine_eval)
  have c: "cls ?d = Some ''Right Hand''" by simp
  have k: "conf ?d = Some 0.9" by simp
  have v: "confidence (verbs ?s Navigate) = 0" by (simp add: engine_eval)
  show ?thesis
    using right_hand_scenario [OF a c k, of 1000000] a v by simp
qed

subsection \<open>Feature events\<close>
















section \<open>Properties of the movement decoder\<close>

subsection \<open>Metric clamping\<close>

lemma clamp_between:
  fixes lo hi x :: real
  assumes "lo \<le> hi"
  shows "lo \<le> min hi (max lo x)" and "min hi (max lo x) \<le> hi"
  using assms by (auto simp: min_def max_def)

text \<open>The adjustment factors at work: the hybrid model on the reaching task.\<close>

lemma metrics_model3_reaching:
  "computeDecoderMetrics ''model3'' ''reaching'' =
     \<lparr>pAccuracy = 0.96768, pNoise = 0.072,
      pMetrics = \<lparr>mse = 0.015925, r2 = 0.882, correlation = 0.98175, decodeTime = 6,
                  bitrate = 151.8\<rparr>\<rparr>"
  by (simp add: computeDecoderMetrics_def clampParams_def adjustForModel_def
        adjustForTrajectory_def scaleParams_def baseParams_def)

text \<open>
  Claim C7. For every model and every trajectory type (any two strings, the listed ones
  and all others), the metrics that \<open>updateDecoderModelMetrics\<close> computes and hands to the
  decoder have an accuracy between 0.5 and 0.98, a mean squared error of at least 0.01, an
  r2 score between 0.4 and 0.98 and a correlation between 0.5 and 0.99.
\<close>

theorem metrics_clamped:
  "0.5 \<le> pAccuracy (computeDecoderMetrics modelId ttype) \<and>
   pAccuracy (computeDecoderMetrics modelId ttype) \<le> 0.98 \<and>
   0.01 \<le> mse (pMetrics (computeDecoderMetrics modelId ttype)) \<and>
   0.4 \<le> r2 (pMetrics (computeDecoderMetrics modelId ttype)) \<and>
   r2 (pMetrics (computeDecoderMetrics modelId ttype)) \<le> 0.98 \<and>
   0.5 \<le> correlation (pMetrics (computeDecoderMetrics modelId ttype)) \<and>
   correlation (pMetrics (computeDecoderMetrics modelId ttype)) \<le> 0.99 \<and>
   accuracy (updateDecoderModelMetrics True modelId ttype d)
     = pAccuracy (computeDecoderMetrics modelId ttype) \<and>
   decoderMetrics (updateDecoderModelMetrics True modelId ttype d)
     = pMetrics (computeDecoderMetrics modelId ttype)"
proof -
  let ?p = "adjustForTrajectory ttype (adjustForModel modelId baseParams)"
  have acc: "pAccuracy (computeDecoderMetrics modelId ttype) = min 0.98 (max 0.5 (pAccuracy ?p))"
    by (simp add: computeDecoderMetrics_def clampParams_def)
  have m: "mse (pMetrics (computeDecoderMetrics modelId ttype)) = max 0.01 (mse (pMetrics ?p))"
    by (simp add: computeDecoderMetrics_def clampParams_def)
  have r: "r2 (pMetrics (computeDecoderMetrics modelId ttype))
             = min 0.98 (max 0.4 (r2 (pMetrics ?p)))"
    by (simp add: computeDecoderMetrics_def clampParams_def)
  have c: "correlation (pMetrics (computeDecoderMetrics modelId ttype))
             = min 0.99 (max 0.5 (correlation (pMetrics ?p)))"
    by (simp add: computeDecoderMetrics_def clampParams_def)
  have u: "accuracy (updateDecoderModelMetrics True modelId ttype d)
             = pAccuracy (computeDecoderMetrics modelId ttype) \<and>
           decoderMetrics (updateDecoderModelMetrics True modelId ttype d)
             = pMetrics (computeDecoderMetrics modelId ttype)"
    by (simp add: updateDecoderModelMetrics_def updateDecoderData_def)
  have a1: "0.5 \<le> pAccuracy (computeDecoderMetrics modelId ttype)"
    unfolding acc by (rule clamp_between) simp
  have a2: "pAccuracy (computeDecoderMetrics modelId ttype) \<le> 0.98"
    unfolding acc by (rule clamp_between) simp
  have r1: "0.4 \<le> r2 (pMetrics (computeDecoderMetrics modelId ttype))"
    unfolding r by (rule clamp_between) simp
  have r2': "r2 (pMetrics (computeDecoderMetrics modelId ttype)) \<le> 0.98"
    unfolding r by (rule clamp_between) simp
  have c1: "0.5 \<le> correlation (pMetrics (computeDecoderMetrics modelId ttype))"
    unfolding c by (rule clamp_between) simp
  have c2: "correlation (pMetrics (computeDecoderMetrics modelId ttype)) \<le> 0.99"
    unfolding c by (rule clamp_between) simp
  have m1: "0.01 \<le> mse (pMetrics (computeDecoderMetrics modelId ttype))"
    unfolding m by (rule max.cobounded1)
  show ?thesis
    using a1 a2 r1 r2' c1 c2 m1 u by blast
qed

section \<open>Properties of the integration glue\<close>

lemma directionOf_nonempty: "directionOf c = Some dir \<Longrightarrow> dir \<noteq> []"
  unfolding directionOf_def by (auto split: if_splits)

lemma directionOf_defined:
  "(\<exists>dir. directionOf c = Some dir) \<longleftrightarrow>
     c \<in> {''Left Hand'', ''Right Hand'', ''Feet'', ''Tongue''}"
  unfolding directionOf_def by simp

lemma directionOf_nonempty_class: "directionOf c = Some dir \<Longrightarrow> c \<noteq> []"
  unfolding directionOf_def by (auto split: if_splits)

lemma classificationBridge_Some:
  assumes "cls d = Some c" and "conf d = Some x"
  shows "classificationBridge (Some d) =
           (case directionOf c of
              Some dir \<Rightarrow>
                if 0.65 < x
                then [\<lparr>reqDirection = dir, reqConfidence = x,
                       reqSource = ''neural-processor''\<rparr>]
                else []
            | None \<Rightarrow> [])"
proof (cases "directionOf c")
  case None
  then show ?thesis using assms by (simp add: classificationBridge_def Let_def)
next
  case (Some dir)
  then show ?thesis
    using assms directionOf_nonempty [OF Some] directionOf_nonempty_class [OF Some]
    by (simp add: classificationBridge_def Let_def confOrZero_def)
qed

lemma classificationBridge_None:
  "classificationBridge None = []"
  "cls d = None \<Longrightarrow> classificationBridge (Some d) = []"
  "conf d = None \<Longrightarrow> classificationBridge (Some d) = []"
  by (simp_all add: classificationBridge_def Let_def confOrZero_def split: option.splits)


lemma set_dispatchClassification:
  "0 < n \<Longrightarrow> set (dispatchClassification n ev) = set (classificationBridge ev)"
  by (cases n) (auto simp: dispatchClassification_def)

lemma dispatchClassification_empty:
  "0 < n \<Longrightarrow> dispatchClassification n ev = [] \<longleftrightarrow> classificationBridge ev = []"
  by (cases n) (auto simp: dispatchClassification_def)

lemma bridge_publishes_iff:
  "classificationBridge ev \<noteq> [] \<longleftrightarrow>
     (\<exists>d c x. ev = Some d \<and> cls d = Some c \<and> conf d = Some x \<and> 0.65 < x \<and>
        c \<in> {''Left Hand'', ''Right Hand'', ''Feet'', ''Tongue''})"
proof (cases ev)
  case None
  then show ?thesis by (simp add: classificationBridge_None)
next
  case (Some d)
  show ?thesis
  proof (cases "cls d")
    case None
    then show ?thesis using Some by (simp add: classificationBridge_None)
  next
    case c: (Some c)
    show ?thesis
    proof (cases "conf d")
      case None
      then show ?thesis using Some by (simp add: classificationBridge_None)
    next
      case x: (Some x)
      have "classificationBridge (Some d) \<noteq> [] \<longleftrightarrow>
              (\<exists>dir. directionOf c = Some dir) \<and> 0.65 < x"
        by (simp add: classificationBridge_Some [OF c x] split: option.splits)
      then have "classificationBridge (Some d) \<noteq> [] \<longleftrightarrow>
              c \<in> {''Left Hand'', ''Right Hand'', ''Feet'', ''Tongue''} \<and> 0.65 < x"
        unfolding directionOf_defined .
      then show ?thesis
        unfolding Some using c x by auto
    qed
  qed
qed


lemma bridge_payload:
  assumes "r \<in> set (classificationBridge ev)"
  shows "\<exists>d c. ev = Some d \<and> cls d = Some c \<and> conf d = Some (reqConfidence r) \<and>
           directionOf c = Some (reqDirection r) \<and> reqSource r = ''neural-processor''"
proof (cases ev)
  case None
  then show ?thesis using assms by (simp add: classificationBridge_None)
next
  case (Some d)
  show ?thesis
  proof (cases "cls d")
    case None
    then show ?thesis using Some assms by (simp add: classificationBridge_None)
  next
    case c: (Some c)
    show ?thesis
    proof (cases "conf d")
      case None
      then show ?thesis using Some assms by (simp add: classificationBridge_None)
    next
      case x: (Some x)
      show ?thesis
      proof (cases "directionOf c")
        case None
        then show ?thesis
          using assms Some by (simp add: classificationBridge_Some [OF c x])
      next
        case dir: (Some dir)
        have "r = \<lparr>reqDirection = dir, reqConfidence = x,
                   reqSource = ''neural-processor''\<rparr>"
          using assms Some dir
          by (simp add: classificationBridge_Some [OF c x] split: if_splits)
        then show ?thesis
          using Some c x dir by simp
      qed
    qed
  qed
qed

lemma direction_table:
  assumes "directionOf c = Some dir"
  shows "dir = (if c = ''Left Hand'' then ''left'' else if c = ''Right Hand'' then ''right''
                else if c = ''Feet'' then ''down'' else ''up'')"
  using assms unfolding directionOf_def by (auto split: if_splits)

text \<open>
  Claim C5. Once the glue has registered the bridge (the decoder visualization and
  NeuroLLaMA were both present when it ran), a \<open>processor:classification-updated\<close> event
  leads to a \<open>decoder:movement-request\<close> exactly when its class is one of Left Hand, Right
  Hand, Feet and Tongue and its confidence is above 0.65; Rest, any other class and an
  event without class or confidence publish nothing. Every request published carries the
  confidence of the event, the source "neural-processor" and the direction of the table:
  left, right, down, up.
\<close>

theorem classification_bridge:
  assumes "hasDecoderVisualization m" and "hasNeuroLLaMA m"
  shows "(dispatchClassification (initializeComponentIntegration m n) ev \<noteq> [] \<longleftrightarrow>
            (\<exists>d c x. ev = Some d \<and> cls d = Some c \<and> conf d = Some x \<and> 0.65 < x \<and>
               c \<in> {''Left Hand'', ''Right Hand'', ''Feet'', ''Tongue''})) \<and>
         (\<forall>r \<in> set (dispatchClassification (initializeComponentIntegration m n) ev).
            \<exists>d c. ev = Some d \<and> cls d = Some c \<and> conf d = Some (reqConfidence r) \<and>
              reqSource r = ''neural-processor'' \<and>
              reqDirection r =
                (if c = ''Left Hand'' then ''left'' else if c = ''Right Hand'' then ''right''
                 else if c = ''Feet'' then ''down'' else ''up''))"
proof (intro conjI ballI)
  have pos: "0 < initializeComponentIntegration m n"
    using assms by (simp add: initializeComponentIntegration_def)
  show "dispatchClassification (initializeComponentIntegration m n) ev \<noteq> [] \<longleftrightarrow>
            (\<exists>d c x. ev = Some d \<and> cls d = Some c \<and> conf d = Some x \<and> 0.65 < x \<and>
               c \<in> {''Left Hand'', ''Right Hand'', ''Feet'', ''Tongue''})"
    unfolding dispatchClassification_empty [OF pos] by (rule bridge_publishes_iff)
  fix r
  assume "r \<in> set (dispatchClassification (initializeComponentIntegration m n) ev)"
  then have "r \<in> set (classificationBridge ev)"
    unfolding set_dispatchClassification [OF pos] .
  from bridge_payload [OF this] obtain d c where
    p: "ev = Some d" "cls d = Some c" "conf d = Some (reqConfidence r)"
       "directionOf c = Some (reqDirection r)" "reqSource r = ''neural-processor''"
    by blast
  note t = direction_table [OF p(4)]
  show "\<exists>d c. ev = Some d \<and> cls d = Some c \<and> conf d = Some (reqConfidence r) \<and>
              reqSource r = ''neural-processor'' \<and>
              reqDirection r =
                (if c = ''Left Hand'' then ''left'' else if c = ''Right Hand'' then ''right''
                 else if c = ''Feet'' then ''down'' else ''up'')"
    using p(1,2,3,5) t by blast
qed


text \<open>
  Witness for C5: with all modules present, a Feet event of confidence 0.7 publishes the
  request for "down" with confidence 0.7.
\<close>

theorem classification_bridge_witness:
  "hasDecoderVisualization \<lparr>hasNeuralSignalProcessor = True, hasNeuroLLaMA = True,
      hasDecoderVisualization = True, hasBCIStatus = True\<rparr> \<and>
   hasNeuroLLaMA \<lparr>hasNeuralSignalProcessor = True, hasNeuroLLaMA = True,
      hasDecoderVisualization = True, hasBCIStatus = True\<rparr> \<and>
   dispatchClassification
     (initializeComponentIntegration
        \<lparr>hasNeuralSignalProcessor = True, hasNeuroLLaMA = True,
         hasDecoderVisualization = True, hasBCIStatus = True\<rparr> 0)
     (Some \<lparr>cls = Some ''Feet'', conf = Some 0.7\<rparr>) \<noteq> [] \<and>
   \<lparr>reqDirection = ''down'', reqConfidence = 0.7, reqSource = ''neural-processor''\<rparr>
     \<in> set (dispatchClassification
         (initializeComponentIntegration
            \<lparr>hasNeuralSignalProcessor = True, hasNeuroLLaMA = True,
             hasDecoderVisualization = True, hasBCIStatus = True\<rparr> 0)
         (Some \<lparr>cls = Some ''Feet'', conf = Some 0.7\<rparr>))"
proof -
  let ?m = "\<lparr>hasNeuralSignalProcessor = True, hasNeuroLLaMA = True,
      hasDecoderVisualization = True, hasBCIStatus = True\<rparr>"
  let ?d = "\<lparr>cls = Some ''Feet'', conf = Some (0.7::real)\<rparr>"
  have d: "hasDecoderVisualization ?m" and l: "hasNeuroLLaMA ?m" by simp_all
  note t = classification_bridge [OF d l, of 0 "Some ?d"]
  have "Some ?d = Some ?d \<and> cls ?d = Some ''Feet'' \<and> conf ?d = Some 0.7 \<and>
        0.65 < (0.7::real) \<and> ''Feet'' \<in> {''Left Hand'', ''Right Hand'', ''Feet'', ''Tongue''}"
    by simp
  then have ex: "\<exists>d c x. Some ?d = Some d \<and> cls d = Some c \<and> conf d = Some x \<and> 0.65 < x \<and>
      c \<in> {''Left Hand'', ''Right Hand'', ''Feet'', ''Tongue''}"
    by (intro exI)
  have ne: "dispatchClassification (initializeComponentIntegration ?m 0) (Some ?d) \<noteq> []"
    by (rule iffD2 [OF conjunct1 [OF t] ex])
  have p: "dispatchClassification (initializeComponentIntegration ?m 0) (Some ?d)
     = [\<lparr>reqDirection = ''down'', reqConfidence = 0.7, reqSource = ''neural-processor''\<rparr>]"
    by (simp add: dispatchClassification_def initializeComponentIntegration_def
          classificationBridge_def confOrZero_def directionOf_def)
  have mem: "\<lparr>reqDirection = ''down'', reqConfidence = 0.7, reqSource = ''neural-processor''\<rparr>
     \<in> set (dispatchClassification (initializeComponentIntegration ?m 0) (Some ?d))"
    unfolding p by simp
  show ?thesis
    using d l ne mem by (intro conjI)
qed

section \<open>Properties of the attention weights\<close>

lemma foldl_add_sum_list: "foldl (+) a xs = a + sum_list (xs :: real list)"
  by (induction xs arbitrary: a) simp_all

lemma sum_list_divide: "sum_list (map (\<lambda>v. v / s) xs) = sum_list xs / (s :: real)"
  by (induction xs) (simp_all add: add_divide_distrib)

lemma normalizeRow_finite:
  assumes "sum_list row \<noteq> 0"
  shows "normalizeRow row = map Some (map (\<lambda>v. v / sum_list row) row)"
  using assms by (simp add: normalizeRow_def jsDiv_def foldl_add_sum_list Let_def)


lemma attention_row:
  assumes "h < numHeads" and "i < sequenceLength"
  shows "generateRandomAttentionMatrix rnd numHeads ! h ! i =
           normalizeRow (randomRow rnd (h * sequenceLength * sequenceLength
                                          + i * sequenceLength))"
  using assms by (simp add: generateRandomAttentionMatrix_def randomHead_def)

lemma attention_shape:
  "length (generateRandomAttentionMatrix rnd numHeads) = numHeads"
  "h < numHeads \<Longrightarrow> length (generateRandomAttentionMatrix rnd numHeads ! h) = sequenceLength"
  "h < numHeads \<Longrightarrow> i < sequenceLength \<Longrightarrow>
     length (generateRandomAttentionMatrix rnd numHeads ! h ! i) = sequenceLength"
  by (simp_all add: generateRandomAttentionMatrix_def randomHead_def normalizeRow_def
        randomRow_def Let_def)

lemma randomRow_sum_pos:
  assumes "\<forall>j < sequenceLength. 0 \<le> rnd (k + j)" and "\<exists>j < sequenceLength. 0 < rnd (k + j)"
  shows "0 < sum_list (randomRow rnd k)"
proof -
  have nn: "\<And>x. x \<in> set (randomRow rnd k) \<Longrightarrow> 0 \<le> x"
    using assms(1) by (auto simp: randomRow_def)
  obtain j where j: "j < sequenceLength" "0 < rnd (k + j)" using assms(2) by blast
  then have m: "rnd (k + j) \<in> set (randomRow rnd k)" by (auto simp: randomRow_def)
  have "rnd (k + j) \<le> sum_list (randomRow rnd k)"
    by (rule member_le_sum_list [OF m]) (rule nn)
  with j(2) show ?thesis by linarith
qed


text \<open>
  Where the sixteen draws of a row are non-negative and not all zero, the row's weights
  are non-negative numbers that sum to exactly 1.
\<close>

lemma attention_rows_sum_to_one:
  assumes "h < numHeads" and "i < sequenceLength"
    and "\<forall>j < sequenceLength.
           0 \<le> rnd (h * sequenceLength * sequenceLength + i * sequenceLength + j)"
    and "\<exists>j < sequenceLength.
           0 < rnd (h * sequenceLength * sequenceLength + i * sequenceLength + j)"
  shows "\<exists>ws. generateRandomAttentionMatrix rnd numHeads ! h ! i = map Some ws \<and>
           length ws = sequenceLength \<and> (\<forall>w \<in> set ws. 0 \<le> w) \<and> sum_list ws = 1"
proof -
  let ?row = "randomRow rnd (h * sequenceLength * sequenceLength + i * sequenceLength)"
  let ?ws = "map (\<lambda>v. v / sum_list ?row) ?row"
  have pos: "0 < sum_list ?row"
    by (rule randomRow_sum_pos) (rule assms(3), rule assms(4))
  have nn: "\<And>x. x \<in> set ?row \<Longrightarrow> 0 \<le> x"
    using assms(3) by (auto simp: randomRow_def)
  have eq: "generateRandomAttentionMatrix rnd numHeads ! h ! i = map Some ?ws"
    using pos by (simp add: attention_row [OF assms(1,2)] normalizeRow_finite)
  have len: "length ?ws = sequenceLength" by (simp add: randomRow_def)
  have ws_nn: "\<forall>w \<in> set ?ws. 0 \<le> w"
    using nn pos by (auto intro: divide_nonneg_pos)
  have total: "sum_list ?ws = 1"
    using pos by (simp add: sum_list_divide)
  show ?thesis
    using eq len ws_nn total by blast
qed

text \<open>Eight heads with every draw equal to 1/2: the first row of the first head sums to 1.\<close>

lemma attention_rows_sum_to_one_example:
  "\<exists>ws. generateRandomAttentionMatrix (\<lambda>k. 1 / 2) 8 ! 0 ! 0 = map Some ws \<and>
      length ws = sequenceLength \<and> (\<forall>w \<in> set ws. 0 \<le> w) \<and> sum_list ws = 1"
proof -
  have a: "(0::nat) < 8" by simp
  have b: "0 < sequenceLength" by (simp add: sequenceLength_def)
  have c: "\<forall>j < sequenceLength. (0::real) \<le> 1 / 2" by simp
  have d: "\<exists>j < sequenceLength. (0::real) < 1 / 2" using b by auto
  show ?thesis
    by (rule attention_rows_sum_to_one
      [where h = 0 and numHeads = 8 and i = 0 and rnd = "\<lambda>k. 1 / 2", OF a b c d])
qed


section \<open>Properties of the impedance check\<close>

lemma runTicks_unarmed: "\<not> armed s \<Longrightarrow> runTicks rnd s = s"
  by (simp add: runTicks.simps [of rnd s])

lemma runTicks_armed: "armed s \<Longrightarrow> runTicks rnd s = runTicks rnd (progressTick rnd s)"
  by (rule trans [OF runTicks.simps [of rnd s]]) (simp only: if_True)


text \<open>
  The check always completes: twenty ticks after the start the interval is cleared and the
  electrodes have been re-measured once.
\<close>

lemma runTicks_completes:
  assumes "armed s" and "progress s + 5 * Suc k = 100"
  shows "runTicks rnd s =
           \<lparr>progress = 100, armed = False, electrodes = recheckAll rnd 0 (electrodes s)\<rparr>"
  using assms
proof (induction k arbitrary: s)
  case 0
  have p: "progressTick rnd s =
      \<lparr>progress = 100, armed = False, electrodes = recheckAll rnd 0 (electrodes s)\<rparr>"
    using "0.prems"(2) by (simp add: progressTick_def Let_def)
  have u: "\<not> armed (progressTick rnd s)" by (simp add: p)
  have "runTicks rnd s = runTicks rnd (progressTick rnd s)"
    by (rule runTicks_armed) (rule "0.prems"(1))
  also have "\<dots> = progressTick rnd s"
    by (rule runTicks_unarmed) (rule u)
  also note p
  finally show ?case .
next
  case (Suc k)
  have p: "progressTick rnd s = s\<lparr>progress := progress s + 5\<rparr>"
    using Suc.prems(2) by (simp add: progressTick_def Let_def)
  have a: "armed (progressTick rnd s)"
    using Suc.prems(1) by (simp add: p)
  have q: "progress (progressTick rnd s) + 5 * Suc k = 100"
    using Suc.prems(2) by (simp add: p)
  have e: "electrodes (progressTick rnd s) = electrodes s" by (simp add: p)
  have "runTicks rnd s = runTicks rnd (progressTick rnd s)"
    by (rule runTicks_armed) (rule Suc.prems(1))
  also have "\<dots> = \<lparr>progress = 100, armed = False,
                     electrodes = recheckAll rnd 0 (electrodes (progressTick rnd s))\<rparr>"
    by (rule Suc.IH [OF a q])
  finally show ?case by (simp only: e)
qed

lemma runImpedanceCheck_completes:
  "runImpedanceCheck rnd es =
     \<lparr>progress = 100, armed = False, electrodes = recheckAll rnd 0 es\<rparr>"
proof -
  have a: "armed (startImpedanceCheck es)" by (simp add: startImpedanceCheck_def)
  have q: "progress (startImpedanceCheck es) + 5 * Suc 19 = 100"
    by (simp add: startImpedanceCheck_def)
  have e: "electrodes (startImpedanceCheck es) = es" by (simp add: startImpedanceCheck_def)
  show ?thesis
    unfolding runImpedanceCheck_def runTicks_completes [OF a q] e ..
qed


lemma recheckElectrode_unfold:
  "recheckElectrode u w e =
     (if max 5 (min 40 (impedance e + (u - 0.5) * 10)) < 10
      then e\<lparr>impedance := max 5 (min 40 (impedance e + (u - 0.5) * 10)),
             signal := 95 + w * 5, status := Good\<rparr>
      else if max 5 (min 40 (impedance e + (u - 0.5) * 10)) < 15
      then e\<lparr>impedance := max 5 (min 40 (impedance e + (u - 0.5) * 10)),
             signal := 90 + w * 5, status := Good\<rparr>
      else if max 5 (min 40 (impedance e + (u - 0.5) * 10)) < 20
      then e\<lparr>impedance := max 5 (min 40 (impedance e + (u - 0.5) * 10)),
             signal := 80 + w * 10, status := Moderate\<rparr>
      else e\<lparr>impedance := max 5 (min 40 (impedance e + (u - 0.5) * 10)),
             signal := 70 + w * 10, status := Poor\<rparr>)"
  unfolding recheckElectrode_def Let_def ..

lemma recheckElectrode_props:
  fixes u w :: real and e :: electrode
  defines "e' \<equiv> recheckElectrode u w e"
  shows "5 \<le> impedance e'" and "impedance e' \<le> 40"
    and "status e' = (if impedance e' < 15 then Good
                      else if impedance e' < 20 then Moderate else Poor)"
    and "name e' = name e"
    and "0 \<le> w \<Longrightarrow> w < 1 \<Longrightarrow>
           (if impedance e' < 10 then 95 \<le> signal e' \<and> signal e' < 100
            else if impedance e' < 15 then 90 \<le> signal e' \<and> signal e' < 95
            else if impedance e' < 20 then 80 \<le> signal e' \<and> signal e' < 90
            else 70 \<le> signal e' \<and> signal e' < 80)"
proof -
  define z where "z = max 5 (min 40 (impedance e + (u - 0.5) * 10))"
  have r: "e' =
     (if z < 10 then e\<lparr>impedance := z, signal := 95 + w * 5, status := Good\<rparr>
      else if z < 15 then e\<lparr>impedance := z, signal := 90 + w * 5, status := Good\<rparr>
      else if z < 20 then e\<lparr>impedance := z, signal := 80 + w * 10, status := Moderate\<rparr>
      else e\<lparr>impedance := z, signal := 70 + w * 10, status := Poor\<rparr>)"
    unfolding e'_def z_def by (rule recheckElectrode_unfold)
  have i: "impedance e' = z" by (simp add: r)
  have z: "5 \<le> z" "z \<le> 40" by (simp_all add: z_def)
  show "5 \<le> impedance e'" "impedance e' \<le> 40" using z by (simp_all only: i)
  show "status e' = (if impedance e' < 15 then Good
                      else if impedance e' < 20 then Moderate else Poor)"
    unfolding i by (simp add: r)
  show "name e' = name e" by (simp add: r)
  show "(if impedance e' < 10 then 95 \<le> signal e' \<and> signal e' < 100
            else if impedance e' < 15 then 90 \<le> signal e' \<and> signal e' < 95
            else if impedance e' < 20 then 80 \<le> signal e' \<and> signal e' < 90
            else 70 \<le> signal e' \<and> signal e' < 80)" if "0 \<le> w" "w < 1"
    unfolding i using that by (simp add: r)
qed

lemma recheckAll_names: "map name (recheckAll rnd k es) = map name es"
  by (induction es arbitrary: k) (simp_all add: recheckElectrode_props(4))

lemma recheckAll_all:
  assumes "\<And>j e. P (recheckElectrode (rnd j) (rnd (Suc j)) e)"
  shows "\<forall>e' \<in> set (recheckAll rnd k es). P e'"
  by (induction es arbitrary: k) (simp_all add: assms)


text \<open>
  Claim C9. When \<open>runImpedanceCheck()\<close> has run to completion (which it always does), every
  electrode, with its name unchanged, has an impedance between 5 and 40 and the status of
  the threshold table for that impedance: good below 15, moderate below 20, poor
  otherwise. Its signal quality is drawn anew in the band of the new impedance (95 to 100
  below 10, 90 to 95 below 15, 80 to 90 below 20, 70 to 80 otherwise), for draws of
  \<open>Math.random()\<close> in the interval from 0 to 1.
\<close>

theorem impedance_check_result:
  "\<not> armed (runImpedanceCheck rnd es) \<and>
   map name (electrodes (runImpedanceCheck rnd es)) = map name es \<and>
   (\<forall>e \<in> set (electrodes (runImpedanceCheck rnd es)).
      5 \<le> impedance e \<and> impedance e \<le> 40 \<and>
      status e = (if impedance e < 15 then Good
                  else if impedance e < 20 then Moderate else Poor) \<and>
      ((\<forall>k. 0 \<le> rnd k \<and> rnd k < 1) \<longrightarrow>
         (if impedance e < 10 then 95 \<le> signal e \<and> signal e < 100
          else if impedance e < 15 then 90 \<le> signal e \<and> signal e < 95
          else if impedance e < 20 then 80 \<le> signal e \<and> signal e < 90
          else 70 \<le> signal e \<and> signal e < 80)))"
proof -
  have el: "electrodes (runImpedanceCheck rnd es) = recheckAll rnd 0 es"
    and ar: "\<not> armed (runImpedanceCheck rnd es)"
    by (simp_all add: runImpedanceCheck_completes)
  have one: "5 \<le> impedance e' \<and> impedance e' \<le> 40 \<and>
      status e' = (if impedance e' < 15 then Good
                  else if impedance e' < 20 then Moderate else Poor) \<and>
      ((\<forall>k. 0 \<le> rnd k \<and> rnd k < 1) \<longrightarrow>
         (if impedance e' < 10 then 95 \<le> signal e' \<and> signal e' < 100
          else if impedance e' < 15 then 90 \<le> signal e' \<and> signal e' < 95
          else if impedance e' < 20 then 80 \<le> signal e' \<and> signal e' < 90
          else 70 \<le> signal e' \<and> signal e' < 80))"
    if "e' = recheckElectrode (rnd j) (rnd (Suc j)) e" for e' j e
    unfolding that
    using recheckElectrode_props(1,2,3) [of "rnd j" "rnd (Suc j)" e]
      recheckElectrode_props(5) [of "rnd (Suc j)" "rnd j" e]
    by blast
  have "\<forall>e' \<in> set (recheckAll rnd 0 es).
      5 \<le> impedance e' \<and> impedance e' \<le> 40 \<and>
      status e' = (if impedance e' < 15 then Good
                  else if impedance e' < 20 then Moderate else Poor) \<and>
      ((\<forall>k. 0 \<le> rnd k \<and> rnd k < 1) \<longrightarrow>
         (if impedance e' < 10 then 95 \<le> signal e' \<and> signal e' < 100
          else if impedance e' < 15 then 90 \<le> signal e' \<and> signal e' < 95
          else if impedance e' < 20 then 80 \<le> signal e' \<and> signal e' < 90
          else 70 \<le> signal e' \<and> signal e' < 80))"
    by (rule recheckAll_all) (rule one, rule refl)
  then show ?thesis
    unfolding el using ar by (simp only: recheckAll_names simp_thms)
qed


text \<open>
  Witness for C9: the monitor's seventeen electrodes with every draw equal to 1/2; Fp1
  keeps its impedance 12.4, stays good and gets the signal quality 92.5.
\<close>

theorem impedance_check_result_witness:
  "\<lparr>name = ''Fp1'', impedance = 12.4, signal = 92.5, status = Good\<rparr>
     \<in> set (electrodes (runImpedanceCheck (\<lambda>k. 1 / 2) bciElectrodes)) \<and>
   (\<forall>k::nat. (0::real) \<le> 1 / 2 \<and> (1::real) / 2 < 1) \<and>
   5 \<le> impedance \<lparr>name = ''Fp1'', impedance = 12.4, signal = 92.5, status = Good\<rparr> \<and>
   impedance \<lparr>name = ''Fp1'', impedance = 12.4, signal = 92.5, status = Good\<rparr> \<le> 40 \<and>
   \<not> armed (runImpedanceCheck (\<lambda>k. 1 / 2) bciElectrodes)"
proof -
  let ?e = "\<lparr>name = ''Fp1'', impedance = 12.4, signal = 92.5, status = Good\<rparr>"
  have m: "?e \<in> set (electrodes (runImpedanceCheck (\<lambda>k. 1 / 2) bciElectrodes))"
    unfolding runImpedanceCheck_completes bciElectrodes_def
    by (simp add: recheckElectrode_def Let_def)
  have d: "\<forall>k::nat. (0::real) \<le> 1 / 2 \<and> (1::real) / 2 < 1" by simp
  note t = impedance_check_result [of "\<lambda>k. 1 / 2" bciElectrodes]
  from t have ar: "\<not> armed (runImpedanceCheck (\<lambda>k. 1 / 2) bciElectrodes)"
    by (rule conjunct1)
  from t m have "5 \<le> impedance ?e \<and> impedance ?e \<le> 40"
    by blast
  with m d ar show ?thesis by (intro conjI) simp_all
qed

section \<open>Properties of the trajectory buffer\<close>

text \<open>
  With the arrays aligned a call never throws: the previous predicted point exists
  whenever the previous actual point does.
\<close>

lemma derivedVelocities_defined:
  assumes "length (predicted d) = length (actual d)"
  shows "\<exists>v. derivedVelocities a p t d = Some v"
  using assms by (simp add: derivedVelocities_def secondLast_def Let_def)

lemma pushedVelocities_defined:
  assumes "aligned d"
  shows "\<exists>v. pushedVelocities c (pushPosition c d) = Some v"
proof -
  have len: "length (predicted (pushPosition c d)) = length (actual (pushPosition c d))"
    using assms by (simp add: aligned_def pushPosition_def)
  obtain v where
    dv: "derivedVelocities (posActual c) (posPredicted c) (posTimestamp c)
           (pushPosition c d) = Some v"
    using derivedVelocities_defined [OF len] by blast
  show ?thesis
  proof (cases "posActualVelocity c")
    case None
    then have "pushedVelocities c (pushPosition c d) = Some v"
      by (simp add: pushedVelocities_def dv)
    then show ?thesis ..
  next
    case a: (Some a)
    show ?thesis
    proof (cases "posPredictedVelocity c")
      case None
      then have "pushedVelocities c (pushPosition c d) = Some v"
        using a by (simp add: pushedVelocities_def dv)
      then show ?thesis ..
    next
      case (Some p)
      then have "pushedVelocities c (pushPosition c d) = Some (finite2 a, finite2 p)"
        using a by (simp add: pushedVelocities_def)
      then show ?thesis ..
    qed
  qed
qed

lemma pushedVelocities_given:
  assumes "posActualVelocity c = Some a" and "posPredictedVelocity c = Some p"
  shows "pushedVelocities c d1 = Some (finite2 a, finite2 p)"
  using assms by (simp add: pushedVelocities_def)

lemma addDecodedPosition_step:
  assumes "aligned d"
  shows "\<exists>d' va vp. addDecodedPosition c d = Some d' \<and> aligned d' \<and>
           pushedVelocities c (pushPosition c d) = Some (va, vp) \<and>
           actual d' = (if length (actual d) < 100 then actual d @ [posActual c]
                        else tl (actual d @ [posActual c])) \<and>
           predicted d' = (if length (actual d) < 100 then predicted d @ [posPredicted c]
                           else tl (predicted d @ [posPredicted c])) \<and>
           timestamps d' = (if length (actual d) < 100 then timestamps d @ [posTimestamp c]
                            else tl (timestamps d @ [posTimestamp c])) \<and>
           velActual d' = (if length (actual d) < 100 then velActual d @ [va]
                           else tl (velActual d @ [va])) \<and>
           velPredicted d' = (if length (actual d) < 100 then velPredicted d @ [vp]
                              else tl (velPredicted d @ [vp]))"
proof -
  let ?d1 = "pushPosition c d"
  obtain v where pv: "pushedVelocities c ?d1 = Some v"
    using pushedVelocities_defined [OF assms] by blast
  obtain va vp where v: "v = (va, vp)" by (cases v)
  let ?d2 = "trimHistory (?d1\<lparr>velActual := velActual ?d1 @ [va],
                                 velPredicted := velPredicted ?d1 @ [vp]\<rparr>)"
  have r: "addDecodedPosition c d = Some ?d2"
    unfolding addDecodedPosition_def Let_def pv v by simp
  have al: "aligned ?d2"
    using assms by (simp add: aligned_def trimHistory_def pushPosition_def)
  have a: "actual ?d2 = (if length (actual d) < 100 then actual d @ [posActual c]
                        else tl (actual d @ [posActual c]))"
    by (simp add: trimHistory_def pushPosition_def)
  have p: "predicted ?d2 = (if length (actual d) < 100 then predicted d @ [posPredicted c]
                           else tl (predicted d @ [posPredicted c]))"
    by (simp add: trimHistory_def pushPosition_def)
  have t: "timestamps ?d2 = (if length (actual d) < 100 then timestamps d @ [posTimestamp c]
                            else tl (timestamps d @ [posTimestamp c]))"
    by (simp add: trimHistory_def pushPosition_def)
  have wa: "velActual ?d2 = (if length (actual d) < 100 then velActual d @ [va]
                           else tl (velActual d @ [va]))"
    by (simp add: trimHistory_def pushPosition_def)
  have wp: "velPredicted ?d2 = (if length (actual d) < 100 then velPredicted d @ [vp]
                              else tl (velPredicted d @ [vp]))"
    by (simp add: trimHistory_def pushPosition_def)
  show ?thesis
    using r al pv [unfolded v] a p t wa wp by blast
qed

text \<open>Pushing at the back and shifting at the front keeps the last hundred elements.\<close>

lemma window_step:
  assumes "length xs \<le> 100"
  shows "(if length xs < 100 then xs @ [a] else tl (xs @ [a]))
           = drop (length xs + 1 - 100) (xs @ [a])"
proof (cases "length xs < 100")
  case True
  then show ?thesis by simp
next
  case False
  with assms have l: "length xs = 100" by simp
  then obtain y ys where xs: "xs = y # ys" by (cases xs) auto
  show ?thesis using l by (simp add: xs)
qed

lemma window_append:
  fixes xs ys :: "'a list" and a :: 'a
  assumes "length xs \<le> 100"
  defines "zs \<equiv> drop (length xs + 1 - 100) (xs @ [a])"
  shows "drop (length zs + m - 100) (zs @ ys) = drop (length xs + Suc m - 100) (xs @ a # ys)"
proof (cases "length xs < 100")
  case True
  then show ?thesis by (simp add: zs_def)
next
  case False
  with assms(1) have l: "length xs = 100" by simp
  then have z: "zs = drop 1 (xs @ [a])" by (simp add: zs_def)
  have "zs @ ys = drop 1 (xs @ a # ys)"
    using l by (simp add: z)
  moreover have "length zs = 100" using l by (simp add: z)
  ultimately show ?thesis using l by simp
qed


text \<open>
  After any sequence of calls each of the five arrays holds the last hundred of the
  elements it held before followed by the elements pushed, in that order. For the two
  velocity arrays the element that call \<open>i\<close> pushes is what \<open>pushedVelocities\<close> gives on
  the data the earlier calls left.
\<close>

lemma addDecodedPositions_window:
  assumes "aligned d" and "length (actual d) \<le> 100"
  shows "\<exists>d' vs. addDecodedPositions cs d = Some d' \<and> aligned d' \<and>
           length vs = length cs \<and>
           actual d' = drop (length (actual d) + length cs - 100)
                         (actual d @ map posActual cs) \<and>
           predicted d' = drop (length (actual d) + length cs - 100)
                            (predicted d @ map posPredicted cs) \<and>
           timestamps d' = drop (length (actual d) + length cs - 100)
                             (timestamps d @ map posTimestamp cs) \<and>
           velActual d' = drop (length (actual d) + length cs - 100)
                            (velActual d @ map fst vs) \<and>
           velPredicted d' = drop (length (actual d) + length cs - 100)
                               (velPredicted d @ map snd vs) \<and>
           (\<forall>i < length cs. \<exists>di. addDecodedPositions (take i cs) d = Some di \<and>
              pushedVelocities (cs ! i) (pushPosition (cs ! i) di) = Some (vs ! i))"
  using assms
proof (induction cs arbitrary: d)
  case Nil
  have "addDecodedPositions [] d = Some d \<and> aligned d \<and> length ([] :: (velocity \<times> velocity) list) = length ([] :: decodedPosition list)"
    using Nil.prems(1) by simp
  then show ?case
    using Nil.prems(2) by (intro exI [of _ d] exI [of _ "[]"]) simp
next
  case (Cons c cs)
  let ?n = "length (actual d)"
  have lp: "length (predicted d) = ?n" and lt: "length (timestamps d) = ?n"
    and la: "length (velActual d) = ?n" and lv: "length (velPredicted d) = ?n"
    using Cons.prems(1) by (simp_all add: aligned_def)
  obtain d1 va vp where
    s: "addDecodedPosition c d = Some d1" and al: "aligned d1"
    and pv: "pushedVelocities c (pushPosition c d) = Some (va, vp)"
    and a1: "actual d1 = (if ?n < 100 then actual d @ [posActual c]
                          else tl (actual d @ [posActual c]))"
    and p1: "predicted d1 = (if ?n < 100 then predicted d @ [posPredicted c]
                             else tl (predicted d @ [posPredicted c]))"
    and t1: "timestamps d1 = (if ?n < 100 then timestamps d @ [posTimestamp c]
                              else tl (timestamps d @ [posTimestamp c]))"
    and va1: "velActual d1 = (if ?n < 100 then velActual d @ [va]
                              else tl (velActual d @ [va]))"
    and vp1: "velPredicted d1 = (if ?n < 100 then velPredicted d @ [vp]
                                 else tl (velPredicted d @ [vp]))"
    using addDecodedPosition_step [OF Cons.prems(1), of c] by blast
  have a2: "actual d1 = drop (?n + 1 - 100) (actual d @ [posActual c])"
    unfolding a1 by (rule window_step) (rule Cons.prems(2))
  have p2: "predicted d1 = drop (length (predicted d) + 1 - 100)
                             (predicted d @ [posPredicted c])"
    unfolding p1 lp [symmetric] by (rule window_step) (simp add: lp Cons.prems(2))
  have t2: "timestamps d1 = drop (length (timestamps d) + 1 - 100)
                              (timestamps d @ [posTimestamp c])"
    unfolding t1 lt [symmetric] by (rule window_step) (simp add: lt Cons.prems(2))
  have va2: "velActual d1 = drop (length (velActual d) + 1 - 100) (velActual d @ [va])"
    unfolding va1 la [symmetric] by (rule window_step) (simp add: la Cons.prems(2))
  have vp2: "velPredicted d1 = drop (length (velPredicted d) + 1 - 100)
                                 (velPredicted d @ [vp])"
    unfolding vp1 lv [symmetric] by (rule window_step) (simp add: lv Cons.prems(2))
  have b1: "length (actual d1) \<le> 100"
    using Cons.prems(2) by (simp add: a2)
  have lp1: "length (actual d1) = length (predicted d1)"
    and lt1: "length (actual d1) = length (timestamps d1)"
    and la1: "length (actual d1) = length (velActual d1)"
    and lv1: "length (actual d1) = length (velPredicted d1)"
    using al by (simp_all add: aligned_def)
  obtain d' vs where
    r: "addDecodedPositions cs d1 = Some d'" and al': "aligned d'"
    and len: "length vs = length cs"
    and a': "actual d' = drop (length (actual d1) + length cs - 100)
                           (actual d1 @ map posActual cs)"
    and p': "predicted d' = drop (length (actual d1) + length cs - 100)
                              (predicted d1 @ map posPredicted cs)"
    and t': "timestamps d' = drop (length (actual d1) + length cs - 100)
                               (timestamps d1 @ map posTimestamp cs)"
    and va': "velActual d' = drop (length (actual d1) + length cs - 100)
                               (velActual d1 @ map fst vs)"
    and vp': "velPredicted d' = drop (length (actual d1) + length cs - 100)
                                  (velPredicted d1 @ map snd vs)"
    and ix: "\<forall>i < length cs. \<exists>di. addDecodedPositions (take i cs) d1 = Some di \<and>
              pushedVelocities (cs ! i) (pushPosition (cs ! i) di) = Some (vs ! i)"
    using Cons.IH [OF al b1] by blast
  have wa: "actual d' = drop (?n + Suc (length cs) - 100)
                          (actual d @ posActual c # map posActual cs)"
    unfolding a' unfolding a2 by (rule window_append) (rule Cons.prems(2))
  have wp: "predicted d' = drop (length (predicted d) + Suc (length cs) - 100)
                             (predicted d @ posPredicted c # map posPredicted cs)"
    unfolding p' lp1 unfolding p2 by (rule window_append) (simp add: lp Cons.prems(2))
  have wt: "timestamps d' = drop (length (timestamps d) + Suc (length cs) - 100)
                              (timestamps d @ posTimestamp c # map posTimestamp cs)"
    unfolding t' lt1 unfolding t2 by (rule window_append) (simp add: lt Cons.prems(2))
  have wva: "velActual d' = drop (length (velActual d) + Suc (length cs) - 100)
                              (velActual d @ va # map fst vs)"
    unfolding va' la1 unfolding va2 by (rule window_append) (simp add: la Cons.prems(2))
  have wvp: "velPredicted d' = drop (length (velPredicted d) + Suc (length cs) - 100)
                                 (velPredicted d @ vp # map snd vs)"
    unfolding vp' lv1 unfolding vp2 by (rule window_append) (simp add: lv Cons.prems(2))
  have run: "addDecodedPositions (c # cs) d = Some d'"
    by (simp add: s r)
  have ix': "\<exists>di. addDecodedPositions (take i (c # cs)) d = Some di \<and>
              pushedVelocities ((c # cs) ! i) (pushPosition ((c # cs) ! i) di)
                = Some (((va, vp) # vs) ! i)"
    if "i < length (c # cs)" for i
  proof (cases i)
    case 0
    then show ?thesis using pv by simp
  next
    case (Suc j)
    with that have "j < length cs" by simp
    with ix obtain dj where
      "addDecodedPositions (take j cs) d1 = Some dj"
      "pushedVelocities (cs ! j) (pushPosition (cs ! j) dj) = Some (vs ! j)"
      by blast
    then show ?thesis by (simp add: Suc s)
  qed
  show ?case
    apply (intro exI [of _ d'] exI [of _ "(va, vp) # vs"])
    using run al' len wa wp wt wva wvp ix' by (simp add: lp lt la lv)
qed


lemma aligned_currentDecoderData:
  "aligned currentDecoderData" "actual currentDecoderData = []"
  "predicted currentDecoderData = []" "timestamps currentDecoderData = []"
  "velActual currentDecoderData = []" "velPredicted currentDecoderData = []"
  by (simp_all add: aligned_def currentDecoderData_def)

text \<open>
  Claim C6. From a buffer of at most 100 points (the five arrays aligned, as the module
  fills them; the initial buffer is empty), any sequence of \<open>addDecodedPosition\<close> calls
  returns without throwing and leaves at most 100 points: in each of the five arrays
  (positions, predictions, timestamps and the two velocities) the last hundred of the old
  elements followed by the new ones. A call on a full buffer evicts the oldest element
  of each array and appends the new one at the end. After 150 calls on the empty buffer
  the buffer holds exactly 100 points, the last 100 pushed, in insertion order, with the
  velocities pushed by those same calls.
\<close>

theorem trajectory_buffer_bounded:
  assumes "aligned d" and "length (actual d) \<le> 100"
  shows "(\<exists>d' vs. addDecodedPositions cs d = Some d' \<and> aligned d' \<and>
            length (actual d') \<le> 100 \<and> length vs = length cs \<and>
            actual d' = drop (length (actual d) + length cs - 100)
                          (actual d @ map posActual cs) \<and>
            predicted d' = drop (length (actual d) + length cs - 100)
                             (predicted d @ map posPredicted cs) \<and>
            timestamps d' = drop (length (actual d) + length cs - 100)
                              (timestamps d @ map posTimestamp cs) \<and>
            velActual d' = drop (length (actual d) + length cs - 100)
                             (velActual d @ map fst vs) \<and>
            velPredicted d' = drop (length (actual d) + length cs - 100)
                                (velPredicted d @ map snd vs) \<and>
            (\<forall>i < length cs. \<exists>di. addDecodedPositions (take i cs) d = Some di \<and>
               pushedVelocities (cs ! i) (pushPosition (cs ! i) di) = Some (vs ! i))) \<and>
         (length (actual d) = 100 \<longrightarrow>
            (\<exists>d' va vp. addDecodedPosition c d = Some d' \<and>
               pushedVelocities c (pushPosition c d) = Some (va, vp) \<and>
               length (actual d') = 100 \<and>
               actual d' = tl (actual d) @ [posActual c] \<and>
               predicted d' = tl (predicted d) @ [posPredicted c] \<and>
               timestamps d' = tl (timestamps d) @ [posTimestamp c] \<and>
               velActual d' = tl (velActual d) @ [va] \<and>
               velPredicted d' = tl (velPredicted d) @ [vp])) \<and>
         (length cs = 150 \<longrightarrow>
            (\<exists>d' vs. addDecodedPositions cs currentDecoderData = Some d' \<and> aligned d' \<and>
               length (actual d') = 100 \<and> length vs = 150 \<and>
               actual d' = drop 50 (map posActual cs) \<and>
               predicted d' = drop 50 (map posPredicted cs) \<and>
               timestamps d' = drop 50 (map posTimestamp cs) \<and>
               velActual d' = drop 50 (map fst vs) \<and>
               velPredicted d' = drop 50 (map snd vs) \<and>
               (\<forall>i < 150. \<exists>di. addDecodedPositions (take i cs) currentDecoderData = Some di \<and>
                  pushedVelocities (cs ! i) (pushPosition (cs ! i) di) = Some (vs ! i))))"
proof (intro conjI impI)
  obtain d' vs where
    r: "addDecodedPositions cs d = Some d'" "aligned d'" "length vs = length cs"
       "actual d' = drop (length (actual d) + length cs - 100) (actual d @ map posActual cs)"
       "predicted d' = drop (length (actual d) + length cs - 100)
                         (predicted d @ map posPredicted cs)"
       "timestamps d' = drop (length (actual d) + length cs - 100)
                          (timestamps d @ map posTimestamp cs)"
       "velActual d' = drop (length (actual d) + length cs - 100) (velActual d @ map fst vs)"
       "velPredicted d' = drop (length (actual d) + length cs - 100)
                            (velPredicted d @ map snd vs)"
       "\<forall>i < length cs. \<exists>di. addDecodedPositions (take i cs) d = Some di \<and>
          pushedVelocities (cs ! i) (pushPosition (cs ! i) di) = Some (vs ! i)"
    using addDecodedPositions_window [OF assms, of cs] by blast
  have "length (actual d') \<le> 100"
    using assms(2) by (simp add: r(4))
  with r show "\<exists>d' vs. addDecodedPositions cs d = Some d' \<and> aligned d' \<and>
            length (actual d') \<le> 100 \<and> length vs = length cs \<and>
            actual d' = drop (length (actual d) + length cs - 100)
                          (actual d @ map posActual cs) \<and>
            predicted d' = drop (length (actual d) + length cs - 100)
                             (predicted d @ map posPredicted cs) \<and>
            timestamps d' = drop (length (actual d) + length cs - 100)
                              (timestamps d @ map posTimestamp cs) \<and>
            velActual d' = drop (length (actual d) + length cs - 100)
                             (velActual d @ map fst vs) \<and>
            velPredicted d' = drop (length (actual d) + length cs - 100)
                                (velPredicted d @ map snd vs) \<and>
            (\<forall>i < length cs. \<exists>di. addDecodedPositions (take i cs) d = Some di \<and>
               pushedVelocities (cs ! i) (pushPosition (cs ! i) di) = Some (vs ! i))"
    by blast
next
  assume full: "length (actual d) = 100"
  have lp: "length (predicted d) = 100" and lt: "length (timestamps d) = 100"
    and la: "length (velActual d) = 100" and lv: "length (velPredicted d) = 100"
    using assms(1) full by (simp_all add: aligned_def)
  have ne: "actual d \<noteq> []" "predicted d \<noteq> []" "timestamps d \<noteq> []"
    "velActual d \<noteq> []" "velPredicted d \<noteq> []"
    using full lp lt la lv by auto
  obtain d' va vp where
    s: "addDecodedPosition c d = Some d'"
       "pushedVelocities c (pushPosition c d) = Some (va, vp)"
    and a: "actual d' = (if length (actual d) < 100 then actual d @ [posActual c]
                          else tl (actual d @ [posActual c]))"
    and p: "predicted d' = (if length (actual d) < 100 then predicted d @ [posPredicted c]
                             else tl (predicted d @ [posPredicted c]))"
    and t: "timestamps d' = (if length (actual d) < 100 then timestamps d @ [posTimestamp c]
                              else tl (timestamps d @ [posTimestamp c]))"
    and wa: "velActual d' = (if length (actual d) < 100 then velActual d @ [va]
                              else tl (velActual d @ [va]))"
    and wp: "velPredicted d' = (if length (actual d) < 100 then velPredicted d @ [vp]
                                 else tl (velPredicted d @ [vp]))"
    using addDecodedPosition_step [OF assms(1), of c] by blast
  have "length (actual d') = 100 \<and> actual d' = tl (actual d) @ [posActual c] \<and>
        predicted d' = tl (predicted d) @ [posPredicted c] \<and>
        timestamps d' = tl (timestamps d) @ [posTimestamp c] \<and>
        velActual d' = tl (velActual d) @ [va] \<and>
        velPredicted d' = tl (velPredicted d) @ [vp]"
    using full ne by (simp add: a p t wa wp)
  with s show "\<exists>d' va vp. addDecodedPosition c d = Some d' \<and>
               pushedVelocities c (pushPosition c d) = Some (va, vp) \<and>
               length (actual d') = 100 \<and>
               actual d' = tl (actual d) @ [posActual c] \<and>
               predicted d' = tl (predicted d) @ [posPredicted c] \<and>
               timestamps d' = tl (timestamps d) @ [posTimestamp c] \<and>
               velActual d' = tl (velActual d) @ [va] \<and>
               velPredicted d' = tl (velPredicted d) @ [vp]"
    by blast
next
  assume n: "length cs = 150"
  have le: "length (actual currentDecoderData) \<le> 100"
    by (simp add: aligned_currentDecoderData)
  obtain d' vs where
    r: "addDecodedPositions cs currentDecoderData = Some d'" "aligned d'"
    and len: "length vs = length cs"
    and a: "actual d' = drop (length (actual currentDecoderData) + length cs - 100)
                          (actual currentDecoderData @ map posActual cs)"
    and p: "predicted d' = drop (length (actual currentDecoderData) + length cs - 100)
                          (predicted currentDecoderData @ map posPredicted cs)"
    and t: "timestamps d' = drop (length (actual currentDecoderData) + length cs - 100)
                          (timestamps currentDecoderData @ map posTimestamp cs)"
    and wa: "velActual d' = drop (length (actual currentDecoderData) + length cs - 100)
                          (velActual currentDecoderData @ map fst vs)"
    and wp: "velPredicted d' = drop (length (actual currentDecoderData) + length cs - 100)
                          (velPredicted currentDecoderData @ map snd vs)"
    and ix: "\<forall>i < length cs. \<exists>di.
               addDecodedPositions (take i cs) currentDecoderData = Some di \<and>
               pushedVelocities (cs ! i) (pushPosition (cs ! i) di) = Some (vs ! i)"
    using addDecodedPositions_window [OF aligned_currentDecoderData(1) le, of cs] by blast
  have "length (actual d') = 100 \<and> length vs = 150 \<and>
        actual d' = drop 50 (map posActual cs) \<and>
        predicted d' = drop 50 (map posPredicted cs) \<and>
        timestamps d' = drop 50 (map posTimestamp cs) \<and>
        velActual d' = drop 50 (map fst vs) \<and>
        velPredicted d' = drop 50 (map snd vs)"
    using n len by (simp add: a p t wa wp aligned_currentDecoderData)
  moreover have "\<forall>i < 150. \<exists>di.
               addDecodedPositions (take i cs) currentDecoderData = Some di \<and>
               pushedVelocities (cs ! i) (pushPosition (cs ! i) di) = Some (vs ! i)"
    using ix unfolding n .
  ultimately show "\<exists>d' vs. addDecodedPositions cs currentDecoderData = Some d' \<and> aligned d' \<and>
               length (actual d') = 100 \<and> length vs = 150 \<and>
               actual d' = drop 50 (map posActual cs) \<and>
               predicted d' = drop 50 (map posPredicted cs) \<and>
               timestamps d' = drop 50 (map posTimestamp cs) \<and>
               velActual d' = drop 50 (map fst vs) \<and>
               velPredicted d' = drop 50 (map snd vs) \<and>
               (\<forall>i < 150. \<exists>di. addDecodedPositions (take i cs) currentDecoderData = Some di \<and>
                  pushedVelocities (cs ! i) (pushPosition (cs ! i) di) = Some (vs ! i))"
    using r by blast
qed


text \<open>When every call brings its two velocities, those are the velocities stored.\<close>

lemma velocities_of_given_calls:
  assumes "length vs = length cs"
    and "\<forall>i < length cs. \<exists>di. addDecodedPositions (take i cs) d = Some di \<and>
           pushedVelocities (cs ! i) (pushPosition (cs ! i) di) = Some (vs ! i)"
    and "\<forall>c \<in> set cs. posActualVelocity c = Some (av c) \<and> posPredictedVelocity c = Some (pv c)"
  shows "vs = map (\<lambda>c. (finite2 (av c), finite2 (pv c))) cs"
proof (rule nth_equalityI)
  show "length vs = length (map (\<lambda>c. (finite2 (av c), finite2 (pv c))) cs)"
    using assms(1) by simp
next
  fix i
  assume "i < length vs"
  then have i: "i < length cs" using assms(1) by simp
  then obtain di where
    "pushedVelocities (cs ! i) (pushPosition (cs ! i) di) = Some (vs ! i)"
    using assms(2) by blast
  moreover have "posActualVelocity (cs ! i) = Some (av (cs ! i))"
    and "posPredictedVelocity (cs ! i) = Some (pv (cs ! i))"
    using assms(3) i by simp_all
  ultimately have "vs ! i = (finite2 (av (cs ! i)), finite2 (pv (cs ! i)))"
    by (simp add: pushedVelocities_given)
  then show "vs ! i = map (\<lambda>c. (finite2 (av c), finite2 (pv c))) cs ! i"
    using i by simp
qed

text \<open>
  Witness for C6: a full buffer of 100 points, and 150 numbered points with their
  velocities pushed into the empty buffer, of which the points 50 to 149 remain in all
  arrays, in order.
\<close>

theorem trajectory_buffer_bounded_witness:
  "aligned (currentDecoderData\<lparr>actual := replicate 100 (0, 0),
       predicted := replicate 100 (0, 0), timestamps := replicate 100 0,
       velActual := replicate 100 (Some 0, Some 0),
       velPredicted := replicate 100 (Some 0, Some 0)\<rparr>) \<and>
   length (actual (currentDecoderData\<lparr>actual := replicate 100 (0, 0),
       predicted := replicate 100 (0, 0), timestamps := replicate 100 0,
       velActual := replicate 100 (Some 0, Some 0),
       velPredicted := replicate 100 (Some 0, Some 0)\<rparr>)) = 100 \<and>
   length (map (\<lambda>i. \<lparr>posActual = (real i, 0), posPredicted = (real i, 1),
                       posTimestamp = real i * 20, posActualVelocity = Some (real i, 2),
                       posPredictedVelocity = Some (real i, 3)\<rparr>) [0..<150]) = 150 \<and>
   (\<exists>d'. addDecodedPositions
            (map (\<lambda>i. \<lparr>posActual = (real i, 0), posPredicted = (real i, 1),
                          posTimestamp = real i * 20, posActualVelocity = Some (real i, 2),
                          posPredictedVelocity = Some (real i, 3)\<rparr>) [0..<150])
            currentDecoderData = Some d' \<and>
          length (actual d') = 100 \<and>
          actual d' = map (\<lambda>i. (real i, 0)) [50..<150] \<and>
          timestamps d' = map (\<lambda>i. real i * 20) [50..<150] \<and>
          velActual d' = map (\<lambda>i. (Some (real i), Some 2)) [50..<150] \<and>
          velPredicted d' = map (\<lambda>i. (Some (real i), Some 3)) [50..<150])"
proof -
  let ?d = "currentDecoderData\<lparr>actual := replicate 100 (0, 0),
       predicted := replicate 100 (0, 0), timestamps := replicate 100 0,
       velActual := replicate 100 (Some 0, Some 0),
       velPredicted := replicate 100 (Some 0, Some 0)\<rparr>"
  let ?f = "\<lambda>i. \<lparr>posActual = (real i, 0), posPredicted = (real i, 1),
                       posTimestamp = real i * 20, posActualVelocity = Some (real i, 2),
                       posPredictedVelocity = Some (real i, 3)\<rparr>"
  let ?cs = "map ?f [0..<150]"
  have al: "aligned ?d" by (simp add: aligned_def)
  have full: "length (actual ?d) = 100" by simp
  have le: "length (actual ?d) \<le> 100" by simp
  have n: "length ?cs = 150" by simp
  note t = trajectory_buffer_bounded [OF al le, of ?cs]
  from t n obtain d' vs where
    r: "addDecodedPositions ?cs currentDecoderData = Some d'"
       "length (actual d') = 100" "length vs = 150"
       "actual d' = drop 50 (map posActual ?cs)"
       "timestamps d' = drop 50 (map posTimestamp ?cs)"
       "velActual d' = drop 50 (map fst vs)"
       "velPredicted d' = drop 50 (map snd vs)"
    and ix: "\<forall>i < 150. \<exists>di. addDecodedPositions (take i ?cs) currentDecoderData = Some di \<and>
                  pushedVelocities (?cs ! i) (pushPosition (?cs ! i) di) = Some (vs ! i)"
    by blast
  have given: "\<forall>c \<in> set ?cs. posActualVelocity c = Some (fst (posActual c), 2) \<and>
                 posPredictedVelocity c = Some (fst (posActual c), 3)"
    by auto
  have len: "length vs = length ?cs" using r(3) by simp
  have ix': "\<forall>i < length ?cs. \<exists>di. addDecodedPositions (take i ?cs) currentDecoderData = Some di \<and>
                  pushedVelocities (?cs ! i) (pushPosition (?cs ! i) di) = Some (vs ! i)"
    using ix unfolding n .
  have vs: "vs = map (\<lambda>c. (finite2 (fst (posActual c), 2), finite2 (fst (posActual c), 3))) ?cs"
    by (rule velocities_of_given_calls [OF len ix' given])
  have da: "drop 50 (map posActual ?cs) = map (\<lambda>i. (real i, 0)) [50..<150]"
    by (simp add: drop_map comp_def)
  have dt: "drop 50 (map posTimestamp ?cs) = map (\<lambda>i. real i * 20) [50..<150]"
    by (simp add: drop_map comp_def)
  have dva: "drop 50 (map fst vs) = map (\<lambda>i. (Some (real i), Some 2)) [50..<150]"
    unfolding vs by (simp add: drop_map comp_def finite2_def)
  have dvp: "drop 50 (map snd vs) = map (\<lambda>i. (Some (real i), Some 3)) [50..<150]"
    unfolding vs by (simp add: drop_map comp_def finite2_def)
  have "\<exists>d'. addDecodedPositions ?cs currentDecoderData = Some d' \<and>
          length (actual d') = 100 \<and>
          actual d' = map (\<lambda>i. (real i, 0)) [50..<150] \<and>
          timestamps d' = map (\<lambda>i. real i * 20) [50..<150] \<and>
          velActual d' = map (\<lambda>i. (Some (real i), Some 2)) [50..<150] \<and>
          velPredicted d' = map (\<lambda>i. (Some (real i), Some 3)) [50..<150]"
    using r(1,2) r(4) [unfolded da] r(5) [unfolded dt] r(6) [unfolded dva] r(7) [unfolded dvp]
    by blast
  with al full n show ?thesis by blast
qed

end
